theory Spec2Isabelle
  imports Main "HOL-Library.AList"
begin

section \<open>JavaScript values\<close>

text \<open>
  The page engine reads a JSON artifact from disk and passes caller-supplied objects around.
  Values are modelled as a small JavaScript value type. \<open>JHeadOnce\<close> stands for the one-shot
  function \<^verbatim>\<open>__headOnce\<close> that \<^verbatim>\<open>render\<close> creates over a fresh \<^verbatim>\<open>_head = false\<close>;
  \<open>JFunc f\<close> is any other function value, named \<open>f\<close>. Numbers are integers: no operation
  of the engine computes with them.
  An object is an association list; the first binding of a key is the property's value.
\<close>

datatype error = TypeError | Thrown string

datatype jsval =
    JUndefined
  | JNull
  | JBool bool
  | JNum int
  | JStr string
  | JArr "jsval list"
  | JObj "(string \<times> jsval) list"
  | JHeadOnce
  | JFunc string

type_synonym jsobj = "(string \<times> jsval) list"

text \<open>JavaScript truthiness, as tested by \<^verbatim>\<open>if (v)\<close>, \<^verbatim>\<open>!v\<close> and \<^verbatim>\<open>a || b\<close>.\<close>

fun truthy :: "jsval \<Rightarrow> bool" where
  "truthy JUndefined = False"
| "truthy JNull = False"
| "truthy (JBool b) = b"
| "truthy (JNum n) = (n \<noteq> 0)"
| "truthy (JStr s) = (s \<noteq> [])"
| "truthy (JArr vs) = True"
| "truthy (JObj kvs) = True"
| "truthy JHeadOnce = True"
| "truthy (JFunc f) = True"

text \<open>
  Property read \<^verbatim>\<open>v.k\<close> (also the read done by destructuring \<^verbatim>\<open>({k} = v)\<close>): a TypeError on
  \<^verbatim>\<open>undefined\<close> and \<^verbatim>\<open>null\<close>, the property or \<^verbatim>\<open>undefined\<close> on an object, \<^verbatim>\<open>undefined\<close>
  on a primitive, array or function. The engine reads the keys \<^verbatim>\<open>client\<close>, \<^verbatim>\<open>server\<close>,
  \<^verbatim>\<open>hashes\<close>, \<^verbatim>\<open>component\<close>, \<^verbatim>\<open>css\<close>, \<^verbatim>\<open>js\<close>, \<^verbatim>\<open>code\<close>, \<^verbatim>\<open>watchFiles\<close> and
  \<^verbatim>\<open>_rebuild\<close>, none of which is a member of a built-in prototype.
\<close>

definition lookup :: "jsobj \<Rightarrow> string \<Rightarrow> jsval" where
  "lookup kvs k = (case map_of kvs k of None \<Rightarrow> JUndefined | Some v \<Rightarrow> v)"

fun get_prop :: "jsval \<Rightarrow> string \<Rightarrow> error + jsval" where
  "get_prop JUndefined k = Inl TypeError"
| "get_prop JNull k = Inl TypeError"
| "get_prop (JObj kvs) k = Inr (lookup kvs k)"
| "get_prop v k = Inr JUndefined"

text \<open>
  Object spread \<^verbatim>\<open>{...target, ...src}\<close>: every own property of \<open>src\<close> is assigned onto the
  target in order; an existing key keeps its position and takes the new value.
\<close>

definition obj_spread :: "jsobj \<Rightarrow> jsobj \<Rightarrow> jsobj" where
  "obj_spread target src = fold (\<lambda>(k, v). AList.update k v) (AList.clearjunk src) target"

section \<open>The page and the world around it\<close>

type_synonym "context" = jsobj

text \<open>
  The loaded SSR module is represented by the render entry of
  \<^verbatim>\<open>ssrModule["default"] || ssrModule\<close>: it takes the render context and returns
  \<^verbatim>\<open>{head, html}\<close> or throws.
\<close>

type_synonym ssr_module = "context \<Rightarrow> error + (string \<times> string)"

datatype buildfile = NoFile | BadFile error | GoodFile jsval

datatype timer_cb = IdleExpiry | ChangeResume

datatype sched_req = Build bool | ScheduleBuild bool

record live_reload =
  port :: nat
  clients :: "nat list"

text \<open>
  One record holds the fields of a \<^verbatim>\<open>Page\<close> object (from \<open>path\<close> to \<open>liveReload\<close>) and the
  part of the outside world the page acts on: its artifact file and the deletions of it that
  have been started and not yet carried out, the clock and the pending timers of the event loop, the requests made to the scheduler, the watchers closed, the
  reload notices sent, the windows of the desktop shell and the ambient payload slot.
  \<open>BadFile e\<close> is a file that exists and whose \<^verbatim>\<open>readJson\<close> throws \<open>e\<close>.
\<close>

record state =
  path :: string
  name :: string
  jsPath :: string
  cssPath :: string
  ready :: bool
  active :: bool
  idleTimer :: "nat option"
  serverComponent :: jsval
  clientComponent :: jsval
  hashes :: jsval
  ssrModule :: "ssr_module option"
  watcher :: "jsval option"
  liveReload :: "live_reload option"
  buildFile :: buildfile
  pending_deletes :: nat
  now :: nat
  next_timer :: nat
  timers :: "(nat \<times> nat \<times> timer_cb) list"
  sched_reqs :: "sched_req list"
  closed_watchers :: "jsval list"
  reload_sent :: "(nat \<times> string) list"
  windows :: "(nat \<times> string) list"
  window_reloads :: "nat list"
  payload_slot :: "context option"

text \<open>\<^verbatim>\<open>this.config\<close>: the options the page reads.\<close>

record config =
  watch :: bool
  cfg_liveReload :: bool
  env :: jsval
  payloadFormat :: jsval
  prerender :: "(context \<Rightarrow> error + context) option"

record template_args =
  t_head :: string
  t_html :: string
  t_css :: jsval
  t_js :: jsval
  t_jsPath :: string
  t_cssPath :: string
  t_jsHash :: jsval
  t_cssHash :: jsval
  t_name :: string
  t_props :: string

text \<open>
  The collaborators of \<^verbatim>\<open>Page.js\<close> that live in other modules are parameters:
  the \<^verbatim>\<open>isElectron\<close> flag, \<^verbatim>\<open>instantiateSsrModule\<close>, the effect of the build command
  that \<^verbatim>\<open>runBuildScript\<close> runs, \<^verbatim>\<open>scheduler.build\<close> (what happens to the page until the promise it
  returns settles), \<^verbatim>\<open>template.render\<close>, \<^verbatim>\<open>JSON.stringify\<close> on the context and
  \<^verbatim>\<open>url.parse(u).pathname\<close>.
\<close>

record engine_env =
  isElectron :: bool
  instantiateSsrModule :: "jsval \<Rightarrow> string \<Rightarrow> error + ssr_module"
  runBuildScript :: "state \<Rightarrow> (error + unit) \<times> state"
  scheduler_build :: "bool \<Rightarrow> state \<Rightarrow> (error + unit) \<times> state"
  template_render :: "template_args \<Rightarrow> error + string"
  json_stringify :: "context \<Rightarrow> string"
  url_pathname :: "string \<Rightarrow> string"

text \<open>
  The constructor: a page starts unready and inactive, with nothing cached. The display name
  and the asset paths are computed from the path and the options by helpers of other modules
  and are arguments here; so are the live-reload channel of the engine and the state of the
  artifact file.
\<close>

definition new_page :: "string \<Rightarrow> string \<Rightarrow> string \<Rightarrow> string \<Rightarrow> live_reload option \<Rightarrow> buildfile \<Rightarrow> state" where
  "new_page p n js css lr bf =
     \<lparr>path = p, name = n, jsPath = js, cssPath = css,
      ready = False, active = False, idleTimer = None,
      serverComponent = JUndefined, clientComponent = JUndefined, hashes = JUndefined,
      ssrModule = None, watcher = None, liveReload = lr,
      buildFile = bf, pending_deletes = 0, now = 0, next_timer = 0, timers = [],
      sched_reqs = [], closed_watchers = [], reload_sent = [],
      windows = [], window_reloads = [], payload_slot = None\<rparr>"

section \<open>Timers and activity tracking\<close>

definition idleTimeout :: nat where
  "idleTimeout = 1000 * 15"

text \<open>
  \<^verbatim>\<open>setTimeout\<close> appends a pending timer (handle, due time, callback) and returns the
  handle; \<^verbatim>\<open>clearTimeout\<close> removes the timer with that handle.
\<close>

definition setTimeout :: "timer_cb \<Rightarrow> nat \<Rightarrow> state \<Rightarrow> nat \<times> state" where
  "setTimeout cb ms s =
     (next_timer s,
      s\<lparr>timers := timers s @ [(next_timer s, now s + ms, cb)],
        next_timer := Suc (next_timer s)\<rparr>)"

definition clearTimeout :: "nat \<Rightarrow> state \<Rightarrow> state" where
  "clearTimeout t s = s\<lparr>timers := filter (\<lambda>(i, d, cb). i \<noteq> t) (timers s)\<rparr>"

definition heartbeat :: "state \<Rightarrow> state" where
  "heartbeat s =
     (let s1 = s\<lparr>active := True\<rparr>;
          s2 = (case idleTimer s1 of Some t \<Rightarrow> clearTimeout t s1 | None \<Rightarrow> s1);
          (t, s3) = setTimeout IdleExpiry idleTimeout s2
      in s3\<lparr>idleTimer := Some t\<rparr>)"

text \<open>The message handler the constructor registers on every live-reload connection.\<close>

definition on_message :: "string \<Rightarrow> state \<Rightarrow> state" where
  "on_message p s =
     (case liveReload s of
        None \<Rightarrow> s
      | Some lr \<Rightarrow> if p = path s then heartbeat s else s)"

definition scheduleBuild :: "bool \<Rightarrow> state \<Rightarrow> state" where
  "scheduleBuild priority s = s\<lparr>sched_reqs := sched_reqs s @ [ScheduleBuild priority]\<rparr>"

text \<open>
  Modelled from the spec: \<^verbatim>\<open>utils/sleep\<close> is not among the sources. \<^verbatim>\<open>await sleep(ms)\<close> is
  the fixed delay of the spec: a timer of \<open>ms\<close> milliseconds whose expiry resumes the code
  after the \<^verbatim>\<open>await\<close>.
\<close>

definition sleep :: "nat \<Rightarrow> timer_cb \<Rightarrow> state \<Rightarrow> state" where
  "sleep ms resume s = snd (setTimeout resume ms s)"

text \<open>
  The watcher's change handler: the part before the \<^verbatim>\<open>await\<close>, and the callbacks that
  the event loop runs when a timer expires (\<open>ChangeResume\<close> is the rest of the handler).
\<close>

definition on_change :: "engine_env \<Rightarrow> state \<Rightarrow> state" where
  "on_change e s =
     (let s1 = s\<lparr>ready := False\<rparr>
      in if \<not> isElectron e \<and> \<not> active s1
         then sleep 100 ChangeResume s1
         else scheduleBuild (active s1) s1)"

fun run_cb :: "timer_cb \<Rightarrow> state \<Rightarrow> state" where
  "run_cb IdleExpiry s = s\<lparr>active := False, idleTimer := None\<rparr>"
| "run_cb ChangeResume s = scheduleBuild (active s) s"

text \<open>
  The event loop. A timer that is due fires once: it leaves the pending list, the clock is
  at its due time at least, and its callback runs. Due timers fire by due time, then in the
  order they were set; no callback of the page sets or clears a timer, so the timers due
  within a stretch of time are known when it starts.
\<close>

definition fire :: "nat \<times> nat \<times> timer_cb \<Rightarrow> state \<Rightarrow> state" where
  "fire t s =
     (case t of (i, d, cb) \<Rightarrow>
        run_cb cb (s\<lparr>now := max (now s) d,
                     timers := filter (\<lambda>(j, d', cb'). j \<noteq> i) (timers s)\<rparr>))"

definition due_timers :: "nat \<Rightarrow> (nat \<times> nat \<times> timer_cb) list \<Rightarrow> (nat \<times> nat \<times> timer_cb) list" where
  "due_timers target ts = sort_key (\<lambda>(i, d, cb). d) (filter (\<lambda>(i, d, cb). d \<le> target) ts)"

definition tick :: "nat \<Rightarrow> state \<Rightarrow> state" where
  "tick n s =
     (let target = now s + n
      in (fold fire (due_timers target (timers s)) s)\<lparr>now := target\<rparr>)"

datatype event = Message string | Change | Tick nat

fun step :: "engine_env \<Rightarrow> event \<Rightarrow> state \<Rightarrow> state" where
  "step e (Message p) s = on_message p s"
| "step e Change s = (if watcher s = None then s else on_change e s)"
| "step e (Tick n) s = tick n s"

definition run :: "engine_env \<Rightarrow> event list \<Rightarrow> state \<Rightarrow> state" where
  "run e evs s = fold (step e) evs s"

section \<open>Loading the artifact: \<^verbatim>\<open>init\<close> and \<^verbatim>\<open>build\<close>\<close>

text \<open>
  How the body of \<^verbatim>\<open>init\<close> ends: it throws, it runs to its end, or it returns the promise
  of \<^verbatim>\<open>scheduler.build(this, priority)\<close>.
\<close>

datatype outcome = Threw error | Done | Delegated bool

text \<open>
  The \<^verbatim>\<open>try\<close> block of \<^verbatim>\<open>init\<close>: read and destructure the artifact, store the three
  fields, then instantiate the SSR module when the server component is truthy. The result is
  the error thrown, if any, and the page as it is at that point.
\<close>

definition load_artifact :: "engine_env \<Rightarrow> state \<Rightarrow> error option \<times> state" where
  "load_artifact e s =
     (case buildFile s of
        NoFile \<Rightarrow> (Some (Thrown ''ENOENT''), s)
      | BadFile err \<Rightarrow> (Some err, s)
      | GoodFile v \<Rightarrow>
          (case get_prop v ''client'' of
             Inl err \<Rightarrow> (Some err, s)
           | Inr client \<Rightarrow>
               (case get_prop v ''server'' of
                  Inl err \<Rightarrow> (Some err, s)
                | Inr server \<Rightarrow>
                    (case get_prop v ''hashes'' of
                       Inl err \<Rightarrow> (Some err, s)
                     | Inr h \<Rightarrow>
                         (let s1 = s\<lparr>serverComponent := server,
                                      clientComponent := client,
                                      hashes := (if truthy h then h else JObj [])\<rparr>
                          in if truthy (serverComponent s1)
                             then (case get_prop (serverComponent s1) ''component'' of
                                     Inl err \<Rightarrow> (Some err, s1)
                                   | Inr c \<Rightarrow>
                                       (case instantiateSsrModule e c (path s1) of
                                          Inl err \<Rightarrow> (Some err, s1)
                                        | Inr m \<Rightarrow> (None, s1\<lparr>ssrModule := Some m\<rparr>)))
                             else (None, s1))))))"

text \<open>The reload notices of \<^verbatim>\<open>init\<close>, sent when \<^verbatim>\<open>config.liveReload\<close> is set.\<close>

definition notify_reload :: "engine_env \<Rightarrow> state \<Rightarrow> error + state" where
  "notify_reload e s =
     (if isElectron e
      then Inr (s\<lparr>window_reloads := window_reloads s @
                   map fst (filter (\<lambda>(w, u). u \<noteq> [] \<and> url_pathname e u = path s) (windows s))\<rparr>)
      else (case liveReload s of
              None \<Rightarrow> Inl TypeError
            | Some lr \<Rightarrow>
                Inr (s\<lparr>reload_sent := reload_sent s @ map (\<lambda>c. (c, path s)) (clients lr)\<rparr>)))"

text \<open>
  The part of \<^verbatim>\<open>init\<close> after the \<^verbatim>\<open>try\<close> block: in watch mode the previous watcher is
  closed and a new one attached to \<^verbatim>\<open>clientComponent.watchFiles\<close>, then the reload notices
  go out; at the end \<open>ready\<close> is set.
\<close>

definition attach_watcher :: "engine_env \<Rightarrow> config \<Rightarrow> state \<Rightarrow> outcome \<times> state" where
  "attach_watcher e cfg s =
     (if watch cfg
      then (let s1 = (case watcher s of
                        Some w \<Rightarrow> s\<lparr>closed_watchers := closed_watchers s @ [w]\<rparr>
                      | None \<Rightarrow> s)
            in case get_prop (clientComponent s1) ''watchFiles'' of
                 Inl err \<Rightarrow> (Threw err, s1)
               | Inr files \<Rightarrow>
                   (let s2 = s1\<lparr>watcher := Some files\<rparr>
                    in if cfg_liveReload cfg
                       then (case notify_reload e s2 of
                               Inl err \<Rightarrow> (Threw err, s2)
                             | Inr s3 \<Rightarrow> (Done, s3\<lparr>ready := True\<rparr>))
                       else (Done, s2\<lparr>ready := True\<rparr>)))
      else (Done, s\<lparr>ready := True\<rparr>))"

text \<open>
  \<^verbatim>\<open>buildFile.deleteIfExists()\<close> belongs to the file library: the call starts a deletion and
  returns a promise. \<open>deleteIfExists\<close> is the call; \<open>delete_done\<close> is the moment, later in the
  event loop, at which a started deletion is carried out and the file is gone.
\<close>

definition deleteIfExists :: "state \<Rightarrow> state" where
  "deleteIfExists s = s\<lparr>pending_deletes := Suc (pending_deletes s)\<rparr>"


text \<open>
  The body of \<^verbatim>\<open>init\<close>. The existence test and the read that follows it are one step. In
  the \<^verbatim>\<open>catch\<close> block \<^verbatim>\<open>deleteIfExists\<close> is called without \<^verbatim>\<open>await\<close>: the error is thrown
  with the deletion started and the file still in place.
\<close>

definition init_body :: "engine_env \<Rightarrow> config \<Rightarrow> bool \<Rightarrow> state \<Rightarrow> outcome \<times> state" where
  "init_body e cfg priority s =
     (if buildFile s = NoFile
      then (Delegated priority, s\<lparr>sched_reqs := sched_reqs s @ [Build priority]\<rparr>)
      else (case load_artifact e s of
              (Some err, s1) \<Rightarrow> (Threw err, deleteIfExists s1)
            | (None, s1) \<Rightarrow> attach_watcher e cfg s1))"

text \<open>\<^verbatim>\<open>await this.init(priority)\<close>: a delegated call settles as the scheduler's promise does.\<close>

definition init :: "engine_env \<Rightarrow> config \<Rightarrow> bool \<Rightarrow> state \<Rightarrow> (error + unit) \<times> state" where
  "init e cfg priority s =
     (case init_body e cfg priority s of
        (Threw err, s1) \<Rightarrow> (Inl err, s1)
      | (Done, s1) \<Rightarrow> (Inr (), s1)
      | (Delegated p, s1) \<Rightarrow> scheduler_build e p s1)"

definition build :: "engine_env \<Rightarrow> config \<Rightarrow> state \<Rightarrow> (error + unit) \<times> state" where
  "build e cfg s =
     (case runBuildScript e s of
        (Inl err, s1) \<Rightarrow> (Inl err, s1)
      | (Inr u, s1) \<Rightarrow> init e cfg False s1)"

section \<open>Rendering\<close>

fun show_nat :: "nat \<Rightarrow> string" where
  "show_nat n =
     (if n < 10 then [char_of (48 + n)]
      else show_nat (n div 10) @ [char_of (48 + n mod 10)])"

definition script_line :: "nat \<Rightarrow> string \<Rightarrow> string" where
  "script_line indent txt = replicate indent (CHR 0x09) @ txt @ [CHR 0x0A]"

text \<open>The live-reload client script that \<^verbatim>\<open>render\<close> appends to the head.\<close>

definition liveReloadScript :: "nat \<Rightarrow> string \<Rightarrow> string" where
  \<open>liveReloadScript prt pth =
     [CHR 0x0A] @
     script_line 4 ''<script>'' @
     script_line 5 ''var socket;'' @
     script_line 5 [] @
     script_line 5 ''function createSocket() {'' @
     script_line 6 (''socket = new WebSocket("ws://" + location.hostname + ":'' @ show_nat prt @ ''");'') @
     script_line 6 [] @
     script_line 6 ''socket.addEventListener("message", function(message) {'' @
     script_line 7 (''if (message.data === "'' @ pth @ ''") {'') @
     script_line 8 ''location.reload();'' @
     script_line 7 ''}'' @
     script_line 6 ''});'' @
     script_line 6 [] @
     script_line 6 ''socket.addEventListener("close", function() {'' @
     script_line 7 ''setTimeout(createSocket, 500);'' @
     script_line 6 ''});'' @
     script_line 5 ''}'' @
     script_line 5 [] @
     script_line 5 ''function heartbeat() {'' @
     script_line 6 (''socket.send("'' @ pth @ ''");'') @
     script_line 5 ''}'' @
     script_line 5 [] @
     script_line 5 ''createSocket();'' @
     script_line 5 [] @
     script_line 5 ''setInterval(heartbeat, 1000);'' @
     script_line 4 ''</script>'' @
     replicate 3 (CHR 0x09)\<close>

text \<open>The replacement of \<^verbatim>\<open>/\\/g\<close> in the serialised context: every backslash is doubled.\<close>

definition escape_backslashes :: "string \<Rightarrow> string" where
  "escape_backslashes js = concat (map (\<lambda>c. if c = CHR 0x5C then [c, c] else [c]) js)"

text \<open>
  The one-shot function placed in the context, as a step on its captured flag \<^verbatim>\<open>_head\<close>:
  the value returned and the flag afterwards.
\<close>

definition headOnce :: "bool \<Rightarrow> bool \<times> bool" where
  "headOnce head_flag = (if head_flag then (False, head_flag) else (True, True))"

text \<open>
  The server-side step of \<^verbatim>\<open>render\<close>: \<open>head\<close>, \<open>html\<close> and the value of the variable
  \<^verbatim>\<open>css\<close> when it ends.
\<close>

definition ssr_phase :: "config \<Rightarrow> context \<Rightarrow> state \<Rightarrow> error + (string \<times> string \<times> jsval)" where
  "ssr_phase cfg ctx s =
     (if truthy (serverComponent s)
      then (case ssrModule s of
              None \<Rightarrow> Inl TypeError
            | Some m \<Rightarrow>
                (case m ctx of
                   Inl err \<Rightarrow> Inl err
                 | Inr (head, html) \<Rightarrow>
                     if env cfg \<noteq> JStr ''dev''
                     then (case get_prop (serverComponent s) ''css'' of
                             Inl err \<Rightarrow> Inl err
                           | Inr css \<Rightarrow> Inr (head, html, css))
                     else Inr (head, html, JStr [])))
      else Inr ([], [], JStr []))"

text \<open>
  What \<^verbatim>\<open>render\<close> returns: the bare html for an email, or the value of
  \<^verbatim>\<open>template.render\<close> on the arguments assembled.
\<close>

datatype render_out = Email string | Doc template_args

definition assemble :: "engine_env \<Rightarrow> config \<Rightarrow> bool \<Rightarrow> context \<Rightarrow> string \<times> string \<times> jsval \<Rightarrow> state \<Rightarrow> error + render_out" where
  "assemble e cfg forEmail ctx r s =
     (case r of (head, html, css) \<Rightarrow>
        (case get_prop (clientComponent s) ''js'' of
           Inl err \<Rightarrow> Inl err
         | Inr js \<Rightarrow>
             (let json = json_stringify e ctx;
                  props = (if payloadFormat cfg = JStr ''templateString''
                           then ''`'' @ escape_backslashes json @ ''`''
                           else json);
                  head1 = (case liveReload s of
                             Some lr \<Rightarrow> head @ liveReloadScript (port lr) (path s)
                           | None \<Rightarrow> head)
              in if forEmail then Inr (Email html)
                 else (case get_prop css ''code'' of
                         Inl err \<Rightarrow> Inl err
                       | Inr cssCode \<Rightarrow>
                           (case get_prop js ''code'' of
                              Inl err \<Rightarrow> Inl err
                            | Inr jsCode \<Rightarrow>
                                (case get_prop (hashes s) ''js'' of
                                   Inl err \<Rightarrow> Inl err
                                 | Inr jsHash \<Rightarrow>
                                     (case get_prop (hashes s) ''css'' of
                                        Inl err \<Rightarrow> Inl err
                                      | Inr cssHash \<Rightarrow>
                                          Inr (Doc \<lparr>t_head = head1, t_html = html,
                                                    t_css = cssCode, t_js = jsCode,
                                                    t_jsPath = jsPath s, t_cssPath = cssPath s,
                                                    t_jsHash = jsHash, t_cssHash = cssHash,
                                                    t_name = name s, t_props = props\<rparr>))))))))"

text \<open>The render context: caller locals spread over the engine's \<^verbatim>\<open>__headOnce\<close>.\<close>

definition make_context :: "jsobj \<Rightarrow> context" where
  "make_context locals = obj_spread [(''__headOnce'', JHeadOnce)] locals"

text \<open>
  \<^verbatim>\<open>render\<close> from the line \<^verbatim>\<open>let _head = false\<close> on. The pre-render hook receives the
  context object and may change it in place; the payload slot holds that same object.
\<close>

definition render_ready :: "engine_env \<Rightarrow> config \<Rightarrow> jsobj \<Rightarrow> bool \<Rightarrow> state \<Rightarrow> (error + render_out) \<times> state" where
  "render_ready e cfg locals forEmail s =
     (let ctx0 = make_context locals;
          s1 = s\<lparr>payload_slot := Some ctx0\<rparr>
      in case (case prerender cfg of None \<Rightarrow> Inr ctx0 | Some hook \<Rightarrow> hook ctx0) of
           Inl err \<Rightarrow> (Inl err, s1)
         | Inr ctx \<Rightarrow>
             (let s2 = s1\<lparr>payload_slot := Some ctx\<rparr>
              in case ssr_phase cfg ctx s2 of
                   Inl err \<Rightarrow> (Inl err, s2)
                 | Inr r \<Rightarrow> (assemble e cfg forEmail ctx r s2, s2)))"

definition render_core :: "engine_env \<Rightarrow> config \<Rightarrow> jsobj \<Rightarrow> bool \<Rightarrow> state \<Rightarrow> (error + render_out) \<times> state" where
  "render_core e cfg locals forEmail s =
     (case (if truthy (lookup locals ''_rebuild'') then build e cfg s else (Inr (), s)) of
        (Inl err, s1) \<Rightarrow> (Inl err, s1)
      | (Inr u, s1) \<Rightarrow>
          (case (if \<not> ready s1 then init e cfg True s1 else (Inr (), s1)) of
             (Inl err, s2) \<Rightarrow> (Inl err, s2)
           | (Inr u2, s2) \<Rightarrow> render_ready e cfg locals forEmail s2))"

definition render :: "engine_env \<Rightarrow> config \<Rightarrow> jsobj \<Rightarrow> bool \<Rightarrow> state \<Rightarrow> (error + string) \<times> state" where
  "render e cfg locals forEmail s =
     (case render_core e cfg locals forEmail s of
        (Inl err, s1) \<Rightarrow> (Inl err, s1)
      | (Inr (Email html), s1) \<Rightarrow> (Inr html, s1)
      | (Inr (Doc args), s1) \<Rightarrow> (template_render e args, s1))"

section \<open>The page registry: \<^verbatim>\<open>render(path, locals, callback)\<close> of \<^verbatim>\<open>engine.js\<close>\<close>

text \<open>
  The constructor of \<^verbatim>\<open>Page.js\<close>, \<^verbatim>\<open>constructor(engine, path)\<close>, on the object it is given.
  It destructures \<^verbatim>\<open>engine\<close> and then \<^verbatim>\<open>engine.config\<close>, which throws a TypeError when the
  value destructured is \<^verbatim>\<open>undefined\<close> or \<^verbatim>\<open>null\<close>; it computes the display name and the
  asset paths with helpers of other modules (the argument \<open>names\<close>, from the path and the
  three options read); when \<^verbatim>\<open>engine.liveReload\<close> is truthy it registers its connection
  handler with \<^verbatim>\<open>liveReload.socket.on\<close> (\<open>channel\<close> reads port and clients off that object).
  \<open>disk\<close> tells the state of the artifact file of a path.
\<close>

fun is_function :: "jsval \<Rightarrow> bool" where
  "is_function (JFunc f) = True"
| "is_function JHeadOnce = True"
| "is_function v = False"

definition new_Page ::
  "(string \<Rightarrow> jsval \<Rightarrow> jsval \<Rightarrow> jsval \<Rightarrow> string \<times> string \<times> string) \<Rightarrow> (jsval \<Rightarrow> live_reload) \<Rightarrow>
   (string \<Rightarrow> buildfile) \<Rightarrow> jsval \<Rightarrow> string \<Rightarrow> error + state" where
  "new_Page names channel disk engine pth =
     (case get_prop engine ''config'' of
        Inl err \<Rightarrow> Inl err
      | Inr cfgv \<Rightarrow>
          (case get_prop engine ''liveReload'' of
             Inl err \<Rightarrow> Inl err
           | Inr lv \<Rightarrow>
               (case get_prop cfgv ''dir'' of
                  Inl err \<Rightarrow> Inl err
                | Inr dir \<Rightarrow>
                    (case get_prop cfgv ''buildDir'' of
                       Inl err \<Rightarrow> Inl err
                     | Inr buildDir \<Rightarrow>
                         (case get_prop cfgv ''assetsPrefix'' of
                            Inl err \<Rightarrow> Inl err
                          | Inr assetsPrefix \<Rightarrow>
                              (case names pth dir buildDir assetsPrefix of
                                 (n, js, css) \<Rightarrow>
                                   if truthy lv
                                   then (case get_prop lv ''socket'' of
                                           Inl err \<Rightarrow> Inl err
                                         | Inr sock \<Rightarrow>
                                             (case get_prop sock ''on'' of
                                                Inl err \<Rightarrow> Inl err
                                              | Inr f \<Rightarrow>
                                                  if is_function f
                                                  then Inr (new_page pth n js css (Some (channel lv)) (disk pth))
                                                  else Inl TypeError))
                                   else Inr (new_page pth n js css None (disk pth))))))))"

text \<open>
  \<^verbatim>\<open>createPage\<close> of \<^verbatim>\<open>engine.js\<close>: \<^verbatim>\<open>new Page(template, path, options, liveReloadSocket)\<close>.
  The constructor has two parameters, so the template object is its \<^verbatim>\<open>engine\<close> and the last
  two arguments are not read.
\<close>

definition createPage ::
  "(string \<Rightarrow> jsval \<Rightarrow> jsval \<Rightarrow> jsval \<Rightarrow> string \<times> string \<times> string) \<Rightarrow> (jsval \<Rightarrow> live_reload) \<Rightarrow>
   (string \<Rightarrow> buildfile) \<Rightarrow> jsval \<Rightarrow> string \<Rightarrow> error + state" where
  "createPage names channel disk template pth = new_Page names channel disk template pth"

text \<open>
  The registry \<^verbatim>\<open>pages\<close> is a plain object used as a map from route paths to pages: its own
  properties are the registered pages, and a key that names a member of \<^verbatim>\<open>Object.prototype\<close>
  reads as that inherited member, a truthy value without a \<^verbatim>\<open>render\<close> method.
  A callback is a function that may throw when called; the calls made are recorded. In
  \<open>engine_render\<close> the closure \<^verbatim>\<open>createPage\<close> and the \<^verbatim>\<open>render\<close> method of the registered pages
  are arguments.
\<close>

datatype cb_call = CbResult string | CbError error

record 'p registry =
  pages :: "string \<rightharpoonup> 'p"
  cb_log :: "cb_call list"

type_synonym callback = "cb_call \<Rightarrow> error option"

definition object_prototype_members :: "string list" where
  "object_prototype_members =
     [''constructor'', ''__defineGetter__'', ''__defineSetter__'', ''hasOwnProperty'',
      ''__lookupGetter__'', ''__lookupSetter__'', ''isPrototypeOf'', ''propertyIsEnumerable'',
      ''toString'', ''valueOf'', ''__proto__'', ''toLocaleString'']"

datatype 'p slot = Registered 'p | Inherited | Missing

definition registry_get :: "'p registry \<Rightarrow> string \<Rightarrow> 'p slot" where
  "registry_get st pth =
     (case pages st pth of
        Some pg \<Rightarrow> Registered pg
      | None \<Rightarrow> if pth \<in> set object_prototype_members then Inherited else Missing)"

definition excludeLocals_default :: "string list" where
  "excludeLocals_default = [''_locals'', ''settings'', ''cache'']"

text \<open>The loop that copies the caller's locals, leaving out the excluded keys.\<close>

definition strip_locals :: "string list \<Rightarrow> jsobj \<Rightarrow> jsobj" where
  "strip_locals excl locals = filter (\<lambda>(k, v). k \<notin> set excl) (AList.clearjunk locals)"

text \<open>The \<^verbatim>\<open>catch\<close> block: the page leaves the registry, the error goes to the caller.\<close>

definition on_render_error :: "string \<Rightarrow> callback option \<Rightarrow> error \<Rightarrow> 'p registry \<Rightarrow> (error + string option) \<times> 'p registry" where
  "on_render_error pth callback err st =
     (let st1 = st\<lparr>pages := (pages st)(pth := None)\<rparr>
      in case callback of
           None \<Rightarrow> (Inl err, st1)
         | Some cb \<Rightarrow>
             (let st2 = st1\<lparr>cb_log := cb_log st1 @ [CbError err]\<rparr>
              in case cb (CbError err) of
                   None \<Rightarrow> (Inr None, st2)
                 | Some err2 \<Rightarrow> (Inl err2, st2)))"

text \<open>The \<^verbatim>\<open>try\<close> block: the page's render, then the callback or the \<^verbatim>\<open>return\<close>.\<close>

definition render_registered ::
  "('p \<Rightarrow> jsobj \<Rightarrow> (error + string) \<times> 'p) \<Rightarrow> string \<Rightarrow> jsobj \<Rightarrow> callback option \<Rightarrow>
   'p registry \<Rightarrow> (error + string option) \<times> 'p registry" where
  "render_registered page_render pth sendLocals callback st =
     (case registry_get st pth of
        Missing \<Rightarrow> on_render_error pth callback TypeError st
      | Inherited \<Rightarrow> on_render_error pth callback TypeError st
      | Registered pg \<Rightarrow>
          (case page_render pg sendLocals of
             (Inl err, pg1) \<Rightarrow>
               on_render_error pth callback err (st\<lparr>pages := (pages st)(pth \<mapsto> pg1)\<rparr>)
           | (Inr result, pg1) \<Rightarrow>
               (let st2 = st\<lparr>pages := (pages st)(pth \<mapsto> pg1)\<rparr>
                in case callback of
                     None \<Rightarrow> (Inr (Some result), st2)
                   | Some cb \<Rightarrow>
                       (let st3 = st2\<lparr>cb_log := cb_log st2 @ [CbResult result]\<rparr>
                        in case cb (CbResult result) of
                             None \<Rightarrow> (Inr None, st3)
                           | Some err \<Rightarrow> on_render_error pth callback err st3))))"

text \<open>
  \<^verbatim>\<open>render(path, locals, callback)\<close>. The page is constructed before the \<^verbatim>\<open>try\<close> block: an
  error of the constructor leaves the function as it is, past the \<^verbatim>\<open>catch\<close> block and the
  callback. The value returned is \<open>Inr (Some doc)\<close> for a returned document, \<open>Inr None\<close>
  when the function ends without a value (a callback was given), \<open>Inl err\<close> when it throws.
\<close>

definition engine_render ::
  "string list \<Rightarrow> (string \<Rightarrow> error + 'p) \<Rightarrow> ('p \<Rightarrow> jsobj \<Rightarrow> (error + string) \<times> 'p) \<Rightarrow>
   string \<Rightarrow> jsobj \<Rightarrow> callback option \<Rightarrow> 'p registry \<Rightarrow> (error + string option) \<times> 'p registry" where
  "engine_render excl create page_render pth locals callback st =
     (let sendLocals = strip_locals excl locals
      in case registry_get st pth of
           Missing \<Rightarrow>
             (case create pth of
                Inl err \<Rightarrow> (Inl err, st)
              | Inr pg \<Rightarrow>
                  render_registered page_render pth sendLocals callback
                    (st\<lparr>pages := (pages st)(pth \<mapsto> pg)\<rparr>))
         | Inherited \<Rightarrow> render_registered page_render pth sendLocals callback st
         | Registered pg \<Rightarrow> render_registered page_render pth sendLocals callback st)"

section \<open>Event sequences and well-formed timer states\<close>

text \<open>The time an event sequence takes is the sum of its clock advances.\<close>

fun ticks :: "event \<Rightarrow> nat" where
  "ticks (Tick n) = n"
| "ticks ev = 0"

definition elapsed :: "event list \<Rightarrow> nat" where
  "elapsed evs = sum_list (map ticks evs)"

definition is_idle :: "nat \<times> nat \<times> timer_cb \<Rightarrow> bool" where
  "is_idle t = (snd (snd t) = IdleExpiry)"

text \<open>
  The states the event loop can be in between two events: pending timers carry distinct
  handles already handed out and are due in the future; the page is active exactly when it
  holds an idle-timer handle, and that handle names the one pending idle timer.
\<close>

definition wf_state :: "state \<Rightarrow> bool" where
  "wf_state s \<longleftrightarrow>
     (\<forall>t \<in> set (timers s). fst t < next_timer s \<and> now s < fst (snd t)) \<and>
     distinct (map fst (timers s)) \<and>
     (case idleTimer s of
        None \<Rightarrow> \<not> active s \<and> (\<forall>t \<in> set (timers s). \<not> is_idle t)
      | Some h \<Rightarrow> active s \<and> (\<exists>t \<in> set (timers s). fst t = h \<and> is_idle t) \<and>
                  (\<forall>t \<in> set (timers s). is_idle t \<longrightarrow> fst t = h))"

text \<open>The page a registry call renders: the registered one, or a new one for an unseen path.\<close>

definition page_for :: "(string \<Rightarrow> error + 'p) \<Rightarrow> 'p registry \<Rightarrow> string \<Rightarrow> error + 'p" where
  "page_for create st pth =
     (case pages st pth of Some pg \<Rightarrow> Inr pg | None \<Rightarrow> create pth)"

section \<open>A concrete installation\<close>

text \<open>
  Collaborators, options, artifacts and pages used to run the definitions on concrete inputs.
  \<open>spec_artifact\<close> has the shape \<^verbatim>\<open>{client: {code, watchFiles}, server: {code, css}, hashes}\<close>;
  \<open>code_artifact\<close> carries the same payloads under the keys that \<^verbatim>\<open>Page.js\<close> reads
  (\<^verbatim>\<open>client.js.code\<close>, \<^verbatim>\<open>server.component\<close>).
\<close>

definition demo_env :: engine_env where
  "demo_env =
     \<lparr>isElectron = False,
      instantiateSsrModule = (\<lambda>c p. Inr (\<lambda>ctx. Inr (''<title>Home</title>'', ''<h1>Hi</h1>''))),
      runBuildScript = (\<lambda>s. (Inr (), s)),
      scheduler_build = (\<lambda>p s. (Inr (), s)),
      template_render = (\<lambda>a. Inr (t_html a)),
      json_stringify = (\<lambda>c. ''{}''),
      url_pathname = (\<lambda>u. u)\<rparr>"

definition demo_config :: config where
  "demo_config =
     \<lparr>watch = False, cfg_liveReload = False, env = JStr ''production'',
      payloadFormat = JUndefined, prerender = None\<rparr>"

definition watch_config :: config where
  "watch_config = demo_config\<lparr>watch := True, cfg_liveReload := True, env := JStr ''dev''\<rparr>"

definition spec_artifact :: jsval where
  "spec_artifact =
     JObj [(''client'', JObj [(''code'', JStr ''<js>''), (''watchFiles'', JArr [])]),
           (''server'', JObj [(''code'', JStr ''<ssr>''), (''css'', JObj [(''code'', JStr ''.a{}'')])]),
           (''hashes'', JObj [(''js'', JStr ''h1''), (''css'', JStr ''h2'')])]"

definition code_artifact :: jsval where
  "code_artifact =
     JObj [(''client'', JObj [(''js'', JObj [(''code'', JStr ''<js>'')]), (''watchFiles'', JArr [])]),
           (''server'', JObj [(''component'', JStr ''<ssr>''), (''css'', JObj [(''code'', JStr ''.a{}'')])]),
           (''hashes'', JObj [(''js'', JStr ''h1''), (''css'', JStr ''h2'')])]"

definition demo_page :: "buildfile \<Rightarrow> state" where
  "demo_page bf =
     new_page ''/views/Home.html'' ''Home'' ''/assets/Home.js'' ''/assets/Home.css'' None bf"

text \<open>A page in watch mode with one live-reload client, after a successful \<^verbatim>\<open>init\<close>.\<close>

definition live_page :: state where
  "live_page =
     snd (init demo_env watch_config False
            (new_page ''/views/Home.html'' ''Home'' ''/assets/Home.js'' ''/assets/Home.css''
               (Some \<lparr>port = 5001, clients = [7]\<rparr>) (GoodFile code_artifact)))"

text \<open>A page loaded from a good artifact whose file has since been replaced by a broken one.\<close>

definition loaded_page :: state where
  "loaded_page = snd (init demo_env demo_config False (demo_page (GoodFile code_artifact)))"


text \<open>An installation in which the server component cannot be instantiated.\<close>

definition broken_ssr_env :: engine_env where
  "broken_ssr_env = demo_env\<lparr>instantiateSsrModule := (\<lambda>c p. Inl (Thrown ''SyntaxError''))\<rparr>"

text \<open>An artifact of a page without server content, and a registry over pages of the installation.\<close>

definition client_only_artifact :: jsval where
  "client_only_artifact =
     JObj [(''client'', JObj [(''js'', JObj [(''code'', JStr ''<js>'')]), (''watchFiles'', JArr [])]),
           (''server'', JNull),
           (''hashes'', JObj [(''js'', JStr ''h1''), (''css'', JStr ''h2'')])]"

definition demo_page_render :: "state \<Rightarrow> jsobj \<Rightarrow> (error + string) \<times> state" where
  "demo_page_render pg locals = render demo_env demo_config locals False pg"

definition empty_registry :: "state registry" where
  "empty_registry = \<lparr>pages = Map.empty, cb_log = []\<rparr>"

text \<open>
  A template object (it has a \<^verbatim>\<open>render\<close> method and no \<^verbatim>\<open>config\<close>), the helpers of the
  constructor, a disk on which every page has its artifact, and a callback that returns.
\<close>

definition demo_template :: jsval where
  "demo_template = JObj [(''render'', JFunc ''render'')]"

definition demo_names :: "string \<Rightarrow> jsval \<Rightarrow> jsval \<Rightarrow> jsval \<Rightarrow> string \<times> string \<times> string" where
  "demo_names pth dir buildDir assetsPrefix = (''Home'', ''/assets/Home.js'', ''/assets/Home.css'')"

definition demo_channel :: "jsval \<Rightarrow> live_reload" where
  "demo_channel v = \<lparr>port = 5001, clients = []\<rparr>"

definition demo_disk :: "string \<Rightarrow> buildfile" where
  "demo_disk pth = GoodFile code_artifact"

definition demo_callback :: callback where
  "demo_callback c = None"

text \<open>Watch mode with live reload configured, outside dev env.\<close>

definition reload_config :: config where
  "reload_config = demo_config\<lparr>watch := True, cfg_liveReload := True\<rparr>"

section \<open>The event loop keeps timer states well-formed\<close>

lemma fire_simps:
  "timers (fire t s) = filter (\<lambda>u. fst u \<noteq> fst t) (timers s)"
  "next_timer (fire t s) = next_timer s"
  "path (fire t s) = path s"
  "watcher (fire t s) = watcher s"
  "liveReload (fire t s) = liveReload s"
  "active (fire t s) = (if is_idle t then False else active s)"
  "idleTimer (fire t s) = (if is_idle t then None else idleTimer s)"
  by (cases t; cases "snd (snd t)"; auto simp: fire_def is_idle_def scheduleBuild_def split_def)+

lemma fold_fire_timers:
  "timers (fold fire L s) = filter (\<lambda>u. fst u \<notin> fst ` set L) (timers s)"
  by (induction L arbitrary: s) (auto simp: fire_simps intro: filter_cong)

lemma fold_fire_frame:
  "next_timer (fold fire L s) = next_timer s"
  "path (fold fire L s) = path s"
  "watcher (fold fire L s) = watcher s"
  "liveReload (fold fire L s) = liveReload s"
  by (induction L arbitrary: s; simp add: fire_simps)+

lemma fold_fire_active:
  "active (fold fire L s) = (if \<exists>t \<in> set L. is_idle t then False else active s)"
  by (induction L arbitrary: s) (auto simp: fire_simps)

lemma fold_fire_idleTimer:
  "idleTimer (fold fire L s) = (if \<exists>t \<in> set L. is_idle t then None else idleTimer s)"
  by (induction L arbitrary: s) (auto simp: fire_simps)

lemma set_due_timers: "set (due_timers T ts) = {t \<in> set ts. fst (snd t) \<le> T}"
  by (auto simp: due_timers_def split_def)

lemmas tick_simps = fold_fire_timers fold_fire_frame fold_fire_active fold_fire_idleTimer set_due_timers

lemma tick_timers:
  assumes "distinct (map fst (timers s))"
  shows "timers (tick n s) = filter (\<lambda>t. now s + n < fst (snd t)) (timers s)"
proof -
  have "\<And>u. u \<in> set (timers s) \<Longrightarrow>
          (fst u \<notin> fst ` {t \<in> set (timers s). fst (snd t) \<le> now s + n}) = (now s + n < fst (snd u))"
    using assms by (force simp: distinct_map inj_on_def)
  then show ?thesis
    by (simp add: tick_def Let_def tick_simps cong: filter_cong)
qed




lemma wf_stateI:
  assumes "\<forall>t \<in> set (timers s). fst t < next_timer s \<and> now s < fst (snd t)"
    and "distinct (map fst (timers s))"
    and "idleTimer s = None \<Longrightarrow> \<not> active s \<and> (\<forall>t \<in> set (timers s). \<not> is_idle t)"
    and "\<And>h. idleTimer s = Some h \<Longrightarrow>
           active s \<and> (\<exists>t \<in> set (timers s). fst t = h \<and> is_idle t) \<and>
           (\<forall>t \<in> set (timers s). is_idle t \<longrightarrow> fst t = h)"
  shows "wf_state s"
  using assms unfolding wf_state_def by (cases "idleTimer s") simp_all

lemma wf_stateD:
  assumes "wf_state s"
  shows "\<forall>t \<in> set (timers s). fst t < next_timer s \<and> now s < fst (snd t)"
    and "distinct (map fst (timers s))"
    and "idleTimer s = None \<Longrightarrow> \<not> active s \<and> (\<forall>t \<in> set (timers s). \<not> is_idle t)"
    and "\<And>h. idleTimer s = Some h \<Longrightarrow>
           active s \<and> (\<exists>t \<in> set (timers s). fst t = h \<and> is_idle t) \<and>
           (\<forall>t \<in> set (timers s). is_idle t \<longrightarrow> fst t = h)"
  using assms unfolding wf_state_def by simp_all

lemma wf_tick: "wf_state s \<Longrightarrow> wf_state (tick n s)"
proof -
  assume w: "wf_state s"
  note d = wf_stateD(2) [OF w]
  define E where "E \<longleftrightarrow> (\<exists>t \<in> set (timers s). fst (snd t) \<le> now s + n \<and> is_idle t)"
  have t: "timers (tick n s) = filter (\<lambda>t. now s + n < fst (snd t)) (timers s)"
    by (rule tick_timers [OF d])
  have frame: "next_timer (tick n s) = next_timer s" "now (tick n s) = now s + n"
    by (simp_all add: tick_def Let_def tick_simps)
  have c: "(\<exists>t \<in> set (due_timers (now s + n) (timers s)). is_idle t) = E"
    unfolding set_due_timers E_def by blast
  have a: "active (tick n s) = (if E then False else active s)"
    and i: "idleTimer (tick n s) = (if E then None else idleTimer s)"
    by (simp_all add: tick_def Let_def fold_fire_active fold_fire_idleTimer c)
  show ?thesis
  proof (rule wf_stateI)
    show "\<forall>t \<in> set (timers (tick n s)). fst t < next_timer (tick n s) \<and> now (tick n s) < fst (snd t)"
      using wf_stateD(1) [OF w] by (simp add: t frame)
    show "distinct (map fst (timers (tick n s)))"
      using d by (simp add: t distinct_map_filter)
    show "\<not> active (tick n s) \<and> (\<forall>t \<in> set (timers (tick n s)). \<not> is_idle t)"
      if n: "idleTimer (tick n s) = None"
    proof (cases E)
      case True
      then obtain u where u: "u \<in> set (timers s)" "fst (snd u) \<le> now s + n" "is_idle u"
        unfolding E_def by blast
      obtain h where h: "idleTimer s = Some h"
        using wf_stateD(3) [of s] w u by (cases "idleTimer s") auto
      have "fst u = h" using wf_stateD(4) [OF w h] u by blast
      have "\<not> is_idle v" if v: "v \<in> set (timers (tick n s))" for v
      proof
        assume "is_idle v"
        moreover from v have vs: "v \<in> set (timers s)" and late: "now s + n < fst (snd v)"
          by (simp_all add: t)
        ultimately have "fst v = h" using wf_stateD(4) [OF w h] by blast
        with \<open>fst u = h\<close> d u(1) vs have "v = u"
          by (simp add: distinct_map inj_on_def)
        with u(2) late show False by simp
      qed
      with True show ?thesis by (simp add: a)
    next
      case False
      with n have "idleTimer s = None" by (simp add: i)
      from wf_stateD(3) [OF w this] False show ?thesis by (simp add: a t)
    qed
    show "active (tick n s) \<and> (\<exists>t \<in> set (timers (tick n s)). fst t = h \<and> is_idle t) \<and>
           (\<forall>t \<in> set (timers (tick n s)). is_idle t \<longrightarrow> fst t = h)"
      if sm: "idleTimer (tick n s) = Some h" for h
    proof -
      from sm have nE: "\<not> E" and h: "idleTimer s = Some h"
        by (simp_all add: i split: if_splits)
      note k = wf_stateD(4) [OF w h]
      from k obtain u where u: "u \<in> set (timers s)" "fst u = h" "is_idle u" by blast
      with nE have "now s + n < fst (snd u)" unfolding E_def by force
      with u(1) have "u \<in> set (timers (tick n s))" by (simp add: t)
      with u have "\<exists>t \<in> set (timers (tick n s)). fst t = h \<and> is_idle t"
        by blast
      moreover from k have "\<forall>t \<in> set (timers (tick n s)). is_idle t \<longrightarrow> fst t = h"
        by (simp add: t)
      moreover from k nE have "active (tick n s)" by (simp add: a)
      ultimately show ?thesis by blast
    qed
  qed
qed


lemma heartbeat_unfold:
  "heartbeat s =
     s\<lparr>active := True,
       timers := filter (\<lambda>u. Some (fst u) \<noteq> idleTimer s) (timers s) @ [(next_timer s, now s + idleTimeout, IdleExpiry)],
       next_timer := Suc (next_timer s),
       idleTimer := Some (next_timer s)\<rparr>"
proof (cases "idleTimer s")
  case None
  then show ?thesis
    by (simp add: heartbeat_def setTimeout_def Let_def)
next
  case (Some h)
  then show ?thesis
    by (simp add: heartbeat_def setTimeout_def clearTimeout_def Let_def split_def)
qed

lemma heartbeat_simps:
  "timers (heartbeat s) =
     filter (\<lambda>u. Some (fst u) \<noteq> idleTimer s) (timers s) @ [(next_timer s, now s + idleTimeout, IdleExpiry)]"
  "next_timer (heartbeat s) = Suc (next_timer s)"
  "now (heartbeat s) = now s"
  "active (heartbeat s) = True"
  "idleTimer (heartbeat s) = Some (next_timer s)"
  "path (heartbeat s) = path s"
  "watcher (heartbeat s) = watcher s"
  "liveReload (heartbeat s) = liveReload s"
  "sched_reqs (heartbeat s) = sched_reqs s"
  by (simp_all add: heartbeat_unfold)

lemma on_change_simps:
  "timers (on_change e s) =
     (if \<not> isElectron e \<and> \<not> active s then timers s @ [(next_timer s, now s + 100, ChangeResume)] else timers s)"
  "next_timer (on_change e s) =
     (if \<not> isElectron e \<and> \<not> active s then Suc (next_timer s) else next_timer s)"
  "now (on_change e s) = now s"
  "active (on_change e s) = active s"
  "idleTimer (on_change e s) = idleTimer s"
  "path (on_change e s) = path s"
  "watcher (on_change e s) = watcher s"
  "liveReload (on_change e s) = liveReload s"
  "ready (on_change e s) = False"
  "sched_reqs (on_change e s) =
     (if \<not> isElectron e \<and> \<not> active s then sched_reqs s else sched_reqs s @ [ScheduleBuild (active s)])"
  by (simp_all add: on_change_def sleep_def setTimeout_def scheduleBuild_def Let_def)

lemma wf_heartbeat: "wf_state s \<Longrightarrow> wf_state (heartbeat s)"
proof -
  assume w: "wf_state s"
  have old: "\<not> is_idle t" if "t \<in> set (timers s)" "Some (fst t) \<noteq> idleTimer s" for t
    using wf_stateD(3,4) [OF w] that by (cases "idleTimer s") auto
  show ?thesis
  proof (rule wf_stateI)
    show "\<forall>t \<in> set (timers (heartbeat s)). fst t < next_timer (heartbeat s) \<and> now (heartbeat s) < fst (snd t)"
      using wf_stateD(1) [OF w] by (auto simp: heartbeat_simps idleTimeout_def less_Suc_eq)
    show "distinct (map fst (timers (heartbeat s)))"
      using wf_stateD(1,2) [OF w] by (auto simp: heartbeat_simps distinct_map_filter)
    show "\<not> active (heartbeat s) \<and> (\<forall>t \<in> set (timers (heartbeat s)). \<not> is_idle t)"
      if "idleTimer (heartbeat s) = None"
      using that by (simp add: heartbeat_simps)
    show "active (heartbeat s) \<and> (\<exists>t \<in> set (timers (heartbeat s)). fst t = h \<and> is_idle t) \<and>
           (\<forall>t \<in> set (timers (heartbeat s)). is_idle t \<longrightarrow> fst t = h)"
      if "idleTimer (heartbeat s) = Some h" for h
      using that old by (auto simp: heartbeat_simps is_idle_def)
  qed
qed

lemma wf_on_change: "wf_state s \<Longrightarrow> wf_state (on_change e s)"
proof -
  assume w: "wf_state s"
  show ?thesis
  proof (rule wf_stateI)
    show "\<forall>t \<in> set (timers (on_change e s)). fst t < next_timer (on_change e s) \<and> now (on_change e s) < fst (snd t)"
      using wf_stateD(1) [OF w] by (auto simp: on_change_simps less_Suc_eq)
    show "distinct (map fst (timers (on_change e s)))"
      using wf_stateD(1,2) [OF w] by (auto simp: on_change_simps)
    show "\<not> active (on_change e s) \<and> (\<forall>t \<in> set (timers (on_change e s)). \<not> is_idle t)"
      if "idleTimer (on_change e s) = None"
      using that wf_stateD(3) [OF w] by (auto simp: on_change_simps is_idle_def)
    show "active (on_change e s) \<and> (\<exists>t \<in> set (timers (on_change e s)). fst t = h \<and> is_idle t) \<and>
           (\<forall>t \<in> set (timers (on_change e s)). is_idle t \<longrightarrow> fst t = h)"
      if "idleTimer (on_change e s) = Some h" for h
      using that wf_stateD(4) [OF w, of h] by (auto simp: on_change_simps is_idle_def)
  qed
qed

lemma wf_step: "wf_state s \<Longrightarrow> wf_state (step e ev s)"
  by (cases ev) (auto simp: on_message_def wf_heartbeat wf_on_change wf_tick split: option.splits)

lemma wf_run: "wf_state s \<Longrightarrow> wf_state (run e evs s)"
  unfolding run_def by (induction evs arbitrary: s) (simp_all add: wf_step)

lemma wf_new_page: "wf_state (new_page p n js css lr bf)"
  by (simp add: wf_state_def new_page_def)

lemma tick_frame:
  "now (tick n s) = now s + n"
  "path (tick n s) = path s"
  "next_timer (tick n s) = next_timer s"
  by (simp_all add: tick_def Let_def fold_fire_frame)

lemma step_now: "now (step e ev s) = now s + ticks ev"
  by (cases ev) (auto simp: on_message_def heartbeat_simps on_change_simps tick_frame split: option.splits)

lemma step_path: "path (step e ev s) = path s"
  by (cases ev) (auto simp: on_message_def heartbeat_simps on_change_simps tick_frame split: option.splits)

lemma run_now: "now (run e evs s) = now s + elapsed evs"
  unfolding run_def elapsed_def by (induction evs arbitrary: s) (simp_all add: step_now)

lemma run_path: "path (run e evs s) = path s"
  unfolding run_def by (induction evs arbitrary: s) (simp_all add: step_path)

lemma on_message_other: "p \<noteq> path s \<Longrightarrow> on_message p s = s"
  by (simp add: on_message_def split: option.splits)

lemma tick_idleTimer_kept:
  assumes w: "wf_state s" and h: "idleTimer s = Some h"
    and m: "(h, D, IdleExpiry) \<in> set (timers s)" and late: "now s + n < D"
  shows "idleTimer (tick n s) = Some h \<and> (h, D, IdleExpiry) \<in> set (timers (tick n s))"
proof -
  note d = wf_stateD(2) [OF w]
  have none_due: "\<not> (\<exists>t \<in> set (due_timers (now s + n) (timers s)). is_idle t)"
  proof
    assume "\<exists>t \<in> set (due_timers (now s + n) (timers s)). is_idle t"
    then obtain u where u: "u \<in> set (timers s)" "fst (snd u) \<le> now s + n" "is_idle u"
      unfolding set_due_timers by blast
    with wf_stateD(4) [OF w h] have "fst u = h" by blast
    with d u(1) m have "u = (h, D, IdleExpiry)"
      by (simp add: distinct_map inj_on_def)
    with u(2) late show False by simp
  qed
  then have "idleTimer (tick n s) = Some h"
    using h by (simp add: tick_def Let_def fold_fire_idleTimer)
  moreover have "(h, D, IdleExpiry) \<in> set (timers (tick n s))"
    using m late by (simp add: tick_timers [OF d])
  ultimately show ?thesis by simp
qed

lemma step_idleTimer_kept:
  assumes "wf_state s" "idleTimer s = Some h" "(h, D, IdleExpiry) \<in> set (timers s)"
    and "ev \<noteq> Message (path s)" "now s + ticks ev < D"
  shows "idleTimer (step e ev s) = Some h \<and> (h, D, IdleExpiry) \<in> set (timers (step e ev s))"
proof (cases ev)
  case (Message p)
  with assms show ?thesis by (simp add: on_message_other)
next
  case Change
  with assms show ?thesis by (simp add: on_change_simps)
next
  case (Tick n)
  with assms tick_idleTimer_kept [of s h D n] show ?thesis by simp
qed

lemma run_idleTimer_kept:
  "wf_state s \<Longrightarrow> idleTimer s = Some h \<Longrightarrow> (h, D, IdleExpiry) \<in> set (timers s) \<Longrightarrow>
   \<forall>ev \<in> set evs. ev \<noteq> Message (path s) \<Longrightarrow> now s + elapsed evs < D \<Longrightarrow>
   idleTimer (run e evs s) = Some h \<and> (h, D, IdleExpiry) \<in> set (timers (run e evs s))"
proof (induction evs arbitrary: s)
  case Nil
  then show ?case by (simp add: run_def)
next
  case (Cons ev evs)
  from Cons.prems have k: "idleTimer (step e ev s) = Some h \<and> (h, D, IdleExpiry) \<in> set (timers (step e ev s))"
    by (intro step_idleTimer_kept) (simp_all add: elapsed_def)
  have "idleTimer (run e evs (step e ev s)) = Some h \<and>
        (h, D, IdleExpiry) \<in> set (timers (run e evs (step e ev s)))"
  proof (rule Cons.IH)
    show "wf_state (step e ev s)" using Cons.prems(1) by (rule wf_step)
    show "idleTimer (step e ev s) = Some h" using k by simp
    show "(h, D, IdleExpiry) \<in> set (timers (step e ev s))" using k by simp
    show "\<forall>ev' \<in> set evs. ev' \<noteq> Message (path (step e ev s))"
      using Cons.prems(4) by (simp add: step_path)
    show "now (step e ev s) + elapsed evs < D"
      using Cons.prems(5) by (simp add: step_now elapsed_def)
  qed
  then show ?case by (simp add: run_def)
qed

lemma step_idle_deadline:
  assumes w: "wf_state s" and dl: "\<forall>t \<in> set (timers s). is_idle t \<longrightarrow> fst (snd t) \<le> D"
    and ev: "ev \<noteq> Message (path s)"
  shows "\<forall>t \<in> set (timers (step e ev s)). is_idle t \<longrightarrow> fst (snd t) \<le> D"
proof (cases ev)
  case (Message p)
  with ev dl show ?thesis by (simp add: on_message_other)
next
  case Change
  with dl show ?thesis by (simp add: on_change_simps is_idle_def)
next
  case (Tick n)
  with dl show ?thesis by (simp add: tick_timers [OF wf_stateD(2) [OF w]])
qed

lemma run_idle_deadline:
  "wf_state s \<Longrightarrow> \<forall>t \<in> set (timers s). is_idle t \<longrightarrow> fst (snd t) \<le> D \<Longrightarrow>
   \<forall>ev \<in> set evs. ev \<noteq> Message (path s) \<Longrightarrow>
   \<forall>t \<in> set (timers (run e evs s)). is_idle t \<longrightarrow> fst (snd t) \<le> D"
proof (induction evs arbitrary: s)
  case Nil
  then show ?case by (simp add: run_def)
next
  case (Cons ev evs)
  have "\<forall>t \<in> set (timers (run e evs (step e ev s))). is_idle t \<longrightarrow> fst (snd t) \<le> D"
  proof (rule Cons.IH)
    show "wf_state (step e ev s)" using Cons.prems(1) by (rule wf_step)
    show "\<forall>t \<in> set (timers (step e ev s)). is_idle t \<longrightarrow> fst (snd t) \<le> D"
      using Cons.prems by (intro step_idle_deadline) simp_all
    show "\<forall>ev' \<in> set evs. ev' \<noteq> Message (path (step e ev s))"
      using Cons.prems(3) by (simp add: step_path)
  qed
  then show ?case by (simp add: run_def)
qed

lemma idle_expired:
  assumes w: "wf_state s" and dl: "\<forall>t \<in> set (timers s). is_idle t \<longrightarrow> fst (snd t) \<le> D"
    and late: "D \<le> now s"
  shows "\<not> active s \<and> idleTimer s = None"
proof (cases "idleTimer s")
  case None
  with wf_stateD(3) [OF w] show ?thesis by simp
next
  case (Some h)
  with wf_stateD(4) [OF w] obtain t where t: "t \<in> set (timers s)" "is_idle t" by blast
  with dl have "fst (snd t) \<le> D" by blast
  moreover from wf_stateD(1) [OF w] t(1) have "now s < fst (snd t)" by blast
  ultimately show ?thesis using late by simp
qed

section \<open>The concrete installation, evaluated\<close>

lemmas demo_defs = demo_env_def demo_config_def watch_config_def code_artifact_def spec_artifact_def
  demo_page_def new_page_def broken_ssr_env_def

lemmas init_defs = init_def init_body_def load_artifact_def attach_watcher_def notify_reload_def lookup_def

lemma new_page_sel:
  "path (new_page p n js css lr bf) = p"
  "name (new_page p n js css lr bf) = n"
  "jsPath (new_page p n js css lr bf) = js"
  "cssPath (new_page p n js css lr bf) = css"
  "ready (new_page p n js css lr bf) = False"
  "liveReload (new_page p n js css lr bf) = lr"
  "buildFile (new_page p n js css lr bf) = bf"
  "sched_reqs (new_page p n js css lr bf) = []"
  "watcher (new_page p n js css lr bf) = None"
  by (simp_all add: new_page_def)

lemma live_page_eq:
  "live_page =
     \<lparr>path = ''/views/Home.html'', name = ''Home'', jsPath = ''/assets/Home.js'', cssPath = ''/assets/Home.css'',
      ready = True, active = False, idleTimer = None,
      serverComponent = JObj [(''component'', JStr ''<ssr>''), (''css'', JObj [(''code'', JStr ''.a{}'')])],
      clientComponent = JObj [(''js'', JObj [(''code'', JStr ''<js>'')]), (''watchFiles'', JArr [])],
      hashes = JObj [(''js'', JStr ''h1''), (''css'', JStr ''h2'')],
      ssrModule = Some (\<lambda>ctx. Inr (''<title>Home</title>'', ''<h1>Hi</h1>'')),
      watcher = Some (JArr []), liveReload = Some \<lparr>port = 5001, clients = [7]\<rparr>,
      buildFile = GoodFile code_artifact, pending_deletes = 0, now = 0, next_timer = 0, timers = [],
      sched_reqs = [], closed_watchers = [], reload_sent = [(7, ''/views/Home.html'')],
      windows = [], window_reloads = [], payload_slot = None\<rparr>"
  by (simp add: live_page_def init_def init_body_def load_artifact_def attach_watcher_def
      notify_reload_def new_page_def code_artifact_def demo_env_def watch_config_def demo_config_def lookup_def)

lemma loaded_page_eq:
  "loaded_page =
     (demo_page (GoodFile code_artifact))
       \<lparr>serverComponent := JObj [(''component'', JStr ''<ssr>''), (''css'', JObj [(''code'', JStr ''.a{}'')])],
        clientComponent := JObj [(''js'', JObj [(''code'', JStr ''<js>'')]), (''watchFiles'', JArr [])],
        hashes := JObj [(''js'', JStr ''h1''), (''css'', JStr ''h2'')],
        ssrModule := Some (\<lambda>ctx. Inr (''<title>Home</title>'', ''<h1>Hi</h1>'')),
        ready := True\<rparr>"
  by (simp add: loaded_page_def init_defs demo_defs)

section \<open>Loading the artifact\<close>

text \<open>
  C7. When the artifact file does not exist, the body of \<^verbatim>\<open>init(priority)\<close> records one build
  request with that priority for the scheduler and returns the scheduler's promise; the page
  it hands over is unchanged: \<open>ready\<close>, the cached server and client components, the
  hashes, the SSR module and the watcher are as before the call. What the awaited call
  yields is what the scheduler's promise yields on that page.
\<close>

theorem init_without_artifact:
  assumes "buildFile s = NoFile"
  shows "init_body e cfg priority s =
           (Delegated priority, s\<lparr>sched_reqs := sched_reqs s @ [Build priority]\<rparr>) \<and>
         init e cfg priority s =
           scheduler_build e priority (s\<lparr>sched_reqs := sched_reqs s @ [Build priority]\<rparr>) \<and>
         ready (snd (init_body e cfg priority s)) = ready s \<and>
         serverComponent (snd (init_body e cfg priority s)) = serverComponent s \<and>
         clientComponent (snd (init_body e cfg priority s)) = clientComponent s \<and>
         hashes (snd (init_body e cfg priority s)) = hashes s \<and>
         ssrModule (snd (init_body e cfg priority s)) = ssrModule s \<and>
         watcher (snd (init_body e cfg priority s)) = watcher s"
  using assms by (simp add: init_def init_body_def)

theorem init_without_artifact_witness:
  "buildFile (demo_page NoFile) = NoFile \<and>
   init_body demo_env demo_config True (demo_page NoFile) =
     (Delegated True, (demo_page NoFile)\<lparr>sched_reqs := [Build True]\<rparr>) \<and>
   ready (snd (init_body demo_env demo_config True (demo_page NoFile))) = False"
proof -
  have h: "buildFile (demo_page NoFile) = NoFile"
    by (simp add: demo_defs)
  from init_without_artifact [OF h, of demo_env demo_config True] h show ?thesis
    by (simp add: demo_defs)
qed







section \<open>Rendering\<close>

text \<open>The one-shot function answers \<open>True\<close> on its first call and \<open>False\<close> from then on.\<close>

lemma headOnce_one_shot:
  "headOnce False = (True, True) \<and> headOnce (snd (headOnce False)) = (False, True)"
  by (simp add: headOnce_def)

lemma map_of_fold_update:
  "distinct (map fst xs) \<Longrightarrow>
   map_of (fold (\<lambda>(k, v). AList.update k v) xs t) = map_of t ++ map_of xs"
proof (induction xs arbitrary: t)
  case Nil
  then show ?case by simp
next
  case (Cons x xs)
  obtain k v where x: "x = (k, v)" by (cases x)
  with Cons.prems have k: "k \<notin> fst ` set xs" and d: "distinct (map fst xs)" by auto
  from k have n: "map_of xs k = None" by (simp add: map_of_eq_None_iff)
  have "map_of (fold (\<lambda>(k, v). AList.update k v) (x # xs) t) =
        map_of (fold (\<lambda>(k, v). AList.update k v) xs (AList.update k v t))"
    by (simp add: x)
  also have "\<dots> = map_of (AList.update k v t) ++ map_of xs"
    by (rule Cons.IH [OF d])
  also have "\<dots> = (map_of t)(k \<mapsto> v) ++ map_of xs"
    by (simp only: update_conv')
  also have "\<dots> = map_of t ++ (map_of xs)(k \<mapsto> v)"
    using n by (auto simp: map_add_def fun_eq_iff split: option.splits)
  also have "\<dots> = map_of t ++ map_of (x # xs)"
    by (simp add: x)
  finally show ?case .
qed

lemma map_of_obj_spread: "map_of (obj_spread t src) = map_of t ++ map_of src"
  by (simp add: obj_spread_def map_of_fold_update distinct_clearjunk map_of_clearjunk)

lemma lookup_obj_spread:
  "lookup (obj_spread t src) k = (if k \<in> fst ` set src then lookup src k else lookup t k)"
proof (cases "k \<in> fst ` set src")
  case True
  then obtain v where "map_of src k = Some v"
    by (meson map_of_eq_None_iff not_Some_eq)
  with True show ?thesis
    by (simp add: lookup_def map_of_obj_spread map_add_def)
next
  case False
  then have "map_of src k = None" by (simp add: map_of_eq_None_iff)
  with False show ?thesis
    by (simp add: lookup_def map_of_obj_spread map_add_def)
qed

text \<open>
  C2, as stated, fails: a caller local named \<^verbatim>\<open>__headOnce\<close> passes the registry's exclusion
  list and replaces the engine's one-shot function in the render context.
\<close>

theorem context_keeps_engine_field_counterexample:
  "lookup (make_context (strip_locals excludeLocals_default [(''__headOnce'', JStr ''mine'')])) ''__headOnce''
     = JStr ''mine''"
  by (simp add: make_context_def strip_locals_def excludeLocals_default_def obj_spread_def lookup_def)

text \<open>
  C2, amended. The render context is the caller's locals spread over the engine's
  \<^verbatim>\<open>__headOnce\<close>: every key the caller supplies has the caller's value, \<^verbatim>\<open>__headOnce\<close>
  included, so the engine's one-shot function is in the context exactly when the caller
  supplies no local of that name. Without a pre-render hook this context is what \<^verbatim>\<open>render\<close>
  publishes in the payload slot.
\<close>

theorem context_caller_locals_win:
  "lookup (make_context locals) k =
     (if k \<in> fst ` set locals then lookup locals k
      else if k = ''__headOnce'' then JHeadOnce else JUndefined) \<and>
   (prerender cfg = None \<longrightarrow>
      payload_slot (snd (render_ready e cfg locals forEmail s)) = Some (make_context locals))"
  by (simp add: make_context_def lookup_obj_spread render_ready_def Let_def split: sum.splits)
    (simp add: lookup_def)

theorem context_caller_locals_win_witness:
  "lookup (make_context [(''title'', JStr ''Hi'')]) ''__headOnce'' = JHeadOnce \<and>
   lookup (make_context [(''title'', JStr ''Hi'')]) ''title'' = JStr ''Hi'' \<and>
   lookup (make_context [(''__headOnce'', JFunc ''mine'')]) ''__headOnce'' = JFunc ''mine'' \<and>
   prerender demo_config = None \<and>
   payload_slot (snd (render_ready demo_env demo_config [(''title'', JStr ''Hi'')] False loaded_page)) =
     Some (make_context [(''title'', JStr ''Hi'')])"
  using context_caller_locals_win [of "[(''title'', JStr ''Hi'')]" "''__headOnce''" demo_config demo_env False loaded_page]
    context_caller_locals_win [of "[(''title'', JStr ''Hi'')]" "''title''" demo_config demo_env False loaded_page]
    context_caller_locals_win [of "[(''__headOnce'', JFunc ''mine'')]" "''__headOnce''" demo_config demo_env False loaded_page]
  by (simp add: lookup_def demo_config_def)

lemma render_ready_state:
  "\<exists>ctx. snd (render_ready e cfg locals forEmail s) = s\<lparr>payload_slot := Some ctx\<rparr>"
  by (auto simp: render_ready_def Let_def split: sum.splits option.splits)

lemma ssr_phase_payload [simp]: "ssr_phase cfg ctx (s\<lparr>payload_slot := p\<rparr>) = ssr_phase cfg ctx s"
  by (simp add: ssr_phase_def cong: option.case_cong sum.case_cong prod.case_cong if_cong)

lemma assemble_payload [simp]: "assemble e cfg forEmail ctx r (s\<lparr>payload_slot := p\<rparr>) = assemble e cfg forEmail ctx r s"
  by (simp add: assemble_def cong: option.case_cong sum.case_cong prod.case_cong if_cong)

lemma render_ready_fst:
  "fst (render_ready e cfg locals forEmail s) =
     (case (case prerender cfg of None \<Rightarrow> Inr (make_context locals) | Some hook \<Rightarrow> hook (make_context locals)) of
        Inl err \<Rightarrow> Inl err
      | Inr ctx \<Rightarrow>
          (case ssr_phase cfg ctx s of
             Inl err \<Rightarrow> Inl err
           | Inr r \<Rightarrow> assemble e cfg forEmail ctx r s))"
  by (simp add: render_ready_def Let_def split: sum.splits option.splits)

lemma render_ready_payload_irrelevant:
  "fst (render_ready e cfg locals forEmail (s\<lparr>payload_slot := p\<rparr>)) = fst (render_ready e cfg locals forEmail s)"
  by (simp add: render_ready_fst cong: sum.case_cong)

lemma render_core_ready:
  "ready s \<Longrightarrow> \<not> truthy (lookup locals ''_rebuild'') \<Longrightarrow>
   render_core e cfg locals forEmail s = render_ready e cfg locals forEmail s"
  by (simp add: render_core_def split: prod.splits sum.splits)

text \<open>
  C8. On a ready page, two consecutive \<^verbatim>\<open>render(locals)\<close> calls with the same locals and no
  forced rebuild, nothing happening in between, yield the same outcome: the same template
  arguments (\<open>html\<close>, \<open>css\<close> and \<open>js\<close> among them) and so the same document. The SSR module,
  the hook and the template are functions of their arguments here.
\<close>

theorem render_twice_same_payloads:
  assumes "ready s" and "\<not> truthy (lookup locals ''_rebuild'')"
  shows "fst (render_core e cfg locals forEmail (snd (render_core e cfg locals forEmail s))) =
           fst (render_core e cfg locals forEmail s) \<and>
         fst (render e cfg locals forEmail (snd (render e cfg locals forEmail s))) =
           fst (render e cfg locals forEmail s)"
proof -
  obtain ctx where c: "snd (render_ready e cfg locals forEmail s) = s\<lparr>payload_slot := Some ctx\<rparr>"
    using render_ready_state by blast
  have r: "ready (s\<lparr>payload_slot := Some ctx\<rparr>)" using assms(1) by simp
  have core: "fst (render_core e cfg locals forEmail (snd (render_core e cfg locals forEmail s))) =
              fst (render_core e cfg locals forEmail s)"
    using assms r by (simp add: render_core_ready c render_ready_payload_irrelevant)
  have s1: "snd (render e cfg locals forEmail s) = snd (render_core e cfg locals forEmail s)"
    by (simp add: render_def split: prod.splits sum.splits render_out.splits)
  have f: "fst (render e cfg locals forEmail t) =
           (case fst (render_core e cfg locals forEmail t) of
              Inl err \<Rightarrow> Inl err
            | Inr (Email html) \<Rightarrow> Inr html
            | Inr (Doc args) \<Rightarrow> template_render e args)" for t
    by (simp add: render_def split: prod.splits sum.splits render_out.splits)
  show ?thesis using core by (simp add: f s1)
qed

theorem render_twice_same_payloads_witness:
  "ready loaded_page \<and> \<not> truthy (lookup [(''title'', JStr ''Hi'')] ''_rebuild'') \<and>
   fst (render demo_env demo_config [(''title'', JStr ''Hi'')] False
          (snd (render demo_env demo_config [(''title'', JStr ''Hi'')] False loaded_page))) =
   fst (render demo_env demo_config [(''title'', JStr ''Hi'')] False loaded_page) \<and>
   fst (render demo_env demo_config [(''title'', JStr ''Hi'')] False loaded_page) = Inr ''<h1>Hi</h1>''"
proof -
  have r: "ready loaded_page" by (simp add: loaded_page_eq)
  have n: "\<not> truthy (lookup [(''title'', JStr ''Hi'')] ''_rebuild'')" by (simp add: lookup_def)
  have c: "render_core demo_env demo_config [(''title'', JStr ''Hi'')] False loaded_page =
           render_ready demo_env demo_config [(''title'', JStr ''Hi'')] False loaded_page"
    using r n by (rule render_core_ready)
  have v: "fst (render demo_env demo_config [(''title'', JStr ''Hi'')] False loaded_page) = Inr ''<h1>Hi</h1>''"
    unfolding render_def c
    by (simp add: render_ready_def ssr_phase_def assemble_def
        Let_def loaded_page_eq lookup_def demo_defs)
  from render_twice_same_payloads [OF r n, of demo_env demo_config False] r n v show ?thesis
    by simp
qed

lemma render_core_result:
  assumes "render_core e cfg locals forEmail s = (Inr out, s')"
  shows "\<exists>s2. render_ready e cfg locals forEmail s2 = (Inr out, s')"
  using assms by (auto simp: render_core_def split: prod.splits sum.splits if_splits)

text \<open>
  C10. Whenever \<^verbatim>\<open>render\<close> reaches the template with the env option equal to \<^verbatim>\<open>"dev"\<close> or
  with a page that has no (truthy) server component, the variable \<^verbatim>\<open>css\<close> still holds the
  empty string it was initialised with, and the \<open>css\<close> argument of the template, read as
  \<^verbatim>\<open>css.code\<close>, is \<^verbatim>\<open>undefined\<close>.
\<close>

theorem css_undefined_in_dev_or_without_server:
  assumes r: "render_core e cfg locals forEmail s = (Inr (Doc a), s')"
    and d: "env cfg = JStr ''dev'' \<or> \<not> truthy (serverComponent s')"
  shows "t_css a = JUndefined \<and>
         (\<forall>ctx head html css. ssr_phase cfg ctx s' = Inr (head, html, css) \<longrightarrow> css = JStr [])"
proof -
  have v: "css = JStr []" if "ssr_phase cfg ctx s' = Inr (head, html, css)" for ctx head html css
    using that d by (auto simp: ssr_phase_def split: if_splits option.splits sum.splits)
  from render_core_result [OF r] obtain s2 where
    rr: "render_ready e cfg locals forEmail s2 = (Inr (Doc a), s')" by blast
  obtain ctx where c: "s' = s2\<lparr>payload_slot := Some ctx\<rparr>"
    using render_ready_state [of e cfg locals forEmail s2] rr by auto
  from rr have "fst (render_ready e cfg locals forEmail s2) = Inr (Doc a)" by simp
  then obtain ctx2 head html css where
    p: "ssr_phase cfg ctx2 s2 = Inr (head, html, css)" and
    as: "assemble e cfg forEmail ctx2 (head, html, css) s2 = Inr (Doc a)"
    by (auto simp: render_ready_fst split: sum.splits)
  from p c have "ssr_phase cfg ctx2 s' = Inr (head, html, css)" by simp
  then have "css = JStr []" by (rule v)
  with as have "t_css a = JUndefined"
    by (auto simp: assemble_def Let_def split: sum.splits if_splits)
  with v show ?thesis by blast
qed

theorem css_undefined_in_dev_or_without_server_witness:
  "env watch_config = JStr ''dev'' \<and>
   t_css (case fst (render_core demo_env watch_config [] False loaded_page) of Inr (Doc a) \<Rightarrow> a) = JUndefined \<and>
   \<not> truthy (serverComponent (snd (render_core demo_env demo_config [] False (demo_page (GoodFile client_only_artifact))))) \<and>
   t_css (case fst (render_core demo_env demo_config [] False (demo_page (GoodFile client_only_artifact))) of
            Inr (Doc a) \<Rightarrow> a) = JUndefined"
proof -
  let ?devdoc = "\<lparr>t_head = ''<title>Home</title>'', t_html = ''<h1>Hi</h1>'', t_css = JUndefined,
                  t_js = JStr ''<js>'', t_jsPath = ''/assets/Home.js'', t_cssPath = ''/assets/Home.css'',
                  t_jsHash = JStr ''h1'', t_cssHash = JStr ''h2'', t_name = ''Home'', t_props = ''{}''\<rparr>"
  let ?doc = "\<lparr>t_head = [], t_html = [], t_css = JUndefined,
               t_js = JStr ''<js>'', t_jsPath = ''/assets/Home.js'', t_cssPath = ''/assets/Home.css'',
               t_jsHash = JStr ''h1'', t_cssHash = JStr ''h2'', t_name = ''Home'', t_props = ''{}''\<rparr>"
  let ?s = "(demo_page (GoodFile client_only_artifact))
              \<lparr>serverComponent := JNull,
               clientComponent := JObj [(''js'', JObj [(''code'', JStr ''<js>'')]), (''watchFiles'', JArr [])],
               hashes := JObj [(''js'', JStr ''h1''), (''css'', JStr ''h2'')],
               ready := True, payload_slot := Some (make_context [])\<rparr>"
  have d: "env watch_config = JStr ''dev''" by (simp add: demo_defs)
  have r1: "render_core demo_env watch_config [] False loaded_page =
            (Inr (Doc ?devdoc), loaded_page\<lparr>payload_slot := Some (make_context [])\<rparr>)"
    by (simp add: render_core_def render_ready_def ssr_phase_def assemble_def Let_def
        loaded_page_eq lookup_def demo_defs)
  have r2: "render_core demo_env demo_config [] False (demo_page (GoodFile client_only_artifact)) =
            (Inr (Doc ?doc), ?s)"
    by (simp add: render_core_def render_ready_def ssr_phase_def assemble_def Let_def
        init_defs client_only_artifact_def demo_defs)
  have n: "\<not> truthy (serverComponent ?s)" by simp
  from css_undefined_in_dev_or_without_server [OF r1] d
       css_undefined_in_dev_or_without_server [OF r2] n
  show ?thesis by (simp add: r1 r2)
qed

lemma assemble_without_bundle:
  assumes "get_prop (clientComponent s) ''js'' = Inr JUndefined"
  shows "\<exists>err. assemble e cfg False ctx r s = Inl err"
proof -
  obtain head html css where r: "r = (head, html, css)" by (cases r) auto
  show ?thesis
    using assms unfolding r
    by (cases "get_prop css ''code''") (simp_all add: assemble_def Let_def)
qed

lemma render_ready_without_bundle:
  assumes "get_prop (clientComponent s) ''js'' = Inr JUndefined"
  shows "\<exists>err. fst (render_ready e cfg locals False s) = Inl err"
proof (cases "case prerender cfg of None \<Rightarrow> Inr (make_context locals) | Some hook \<Rightarrow> hook (make_context locals)")
  case (Inl err)
  then show ?thesis by (simp add: render_ready_fst)
next
  case (Inr ctx)
  show ?thesis
  proof (cases "ssr_phase cfg ctx s")
    case (Inl err)
    with Inr show ?thesis by (simp add: render_ready_fst)
  next
    case (Inr r)
    with \<open>_ = Inr ctx\<close> assemble_without_bundle [OF assms, of e cfg ctx r]
    show ?thesis by (simp add: render_ready_fst)
  qed
qed

lemma attach_watcher_result:
  "fst (attach_watcher e cfg s) \<noteq> Delegated b \<and>
   clientComponent (snd (attach_watcher e cfg s)) = clientComponent s"
  by (simp add: attach_watcher_def notify_reload_def Let_def split: option.splits sum.splits)

lemma load_artifact_client:
  assumes "buildFile s = GoodFile (JObj kvs)" and "load_artifact e s = (None, s1)"
  shows "clientComponent s1 = lookup kvs ''client''"
  using assms by (auto simp: load_artifact_def Let_def split: sum.splits if_splits)

lemma init_client:
  assumes b: "buildFile s = GoodFile (JObj kvs)" and i: "init e cfg priority s = (Inr u, s2)"
  shows "clientComponent s2 = lookup kvs ''client''"
proof -
  obtain le s1 where l: "load_artifact e s = (le, s1)" by (cases "load_artifact e s")
  obtain o1 s3 where a: "attach_watcher e cfg s1 = (o1, s3)" by (cases "attach_watcher e cfg s1")
  from attach_watcher_result [of e cfg s1] a
  have nd: "\<And>b. o1 \<noteq> Delegated b" and c: "clientComponent s3 = clientComponent s1" by auto
  from i b l a nd have "le = None" and "s2 = s3"
    by (cases le; cases o1; simp add: init_def init_body_def)+
  with load_artifact_client [OF b] l c show ?thesis by simp
qed

lemma render_fst:
  "fst (render e cfg locals forEmail s) =
     (case fst (render_core e cfg locals forEmail s) of
        Inl err \<Rightarrow> Inl err
      | Inr (Email html) \<Rightarrow> Inr html
      | Inr (Doc args) \<Rightarrow> template_render e args)"
  by (simp add: render_def split: prod.splits sum.splits render_out.splits)

text \<open>
  Whatever the collaborators and options are, a new page whose artifact has the shape
  \<^verbatim>\<open>{client: {code, watchFiles}, server: {code, css}, hashes}\<close> never renders a document.
\<close>

lemma spec_artifact_never_renders:
  "\<exists>err. fst (render e cfg [(''title'', JStr ''Hi'')] False
                (new_page p n js css lr (GoodFile spec_artifact))) = Inl err"
proof -
  let ?s0 = "new_page p n js css lr (GoodFile spec_artifact)"
  let ?L = "[(''title'', JStr ''Hi'')]"
  have c: "render_core e cfg ?L False ?s0 =
           (case init e cfg True ?s0 of
              (Inl err, s2) \<Rightarrow> (Inl err, s2)
            | (Inr u, s2) \<Rightarrow> render_ready e cfg ?L False s2)"
    by (simp add: render_core_def lookup_def new_page_sel)
  obtain res s2 where i: "init e cfg True ?s0 = (res, s2)" by (cases "init e cfg True ?s0")
  have "\<exists>err. fst (render_core e cfg ?L False ?s0) = Inl err"
  proof (cases res)
    case (Inl err)
    with i c show ?thesis by simp
  next
    case (Inr u)
    with i have "clientComponent s2 = JObj [(''code'', JStr ''<js>''), (''watchFiles'', JArr [])]"
      using init_client [of ?s0 _ e cfg True u s2]
      by (simp add: new_page_sel spec_artifact_def lookup_def)
    then have "get_prop (clientComponent s2) ''js'' = Inr JUndefined"
      by (simp add: lookup_def)
    from render_ready_without_bundle [OF this, of e cfg ?L] Inr i c show ?thesis by simp
  qed
  then obtain err where "fst (render_core e cfg ?L False ?s0) = Inl err" by blast
  then have "fst (render e cfg ?L False ?s0) = Inl err"
    by (simp add: render_fst)
  then show ?thesis by blast
qed

lemma attach_watcher_done:
  assumes f: "get_prop (clientComponent s) ''watchFiles'' = Inr files"
    and ch: "watch cfg \<and> cfg_liveReload cfg \<longrightarrow> isElectron e \<or> liveReload s \<noteq> None"
  shows "\<exists>s'. attach_watcher e cfg s = (Done, s') \<and> ready s' \<and>
           serverComponent s' = serverComponent s \<and> clientComponent s' = clientComponent s \<and>
           hashes s' = hashes s \<and> ssrModule s' = ssrModule s \<and> liveReload s' = liveReload s \<and>
           path s' = path s \<and> name s' = name s \<and> jsPath s' = jsPath s \<and> cssPath s' = cssPath s \<and>
           sched_reqs s' = sched_reqs s \<and> buildFile s' = buildFile s"
proof (cases "watch cfg")
  case False
  then show ?thesis by (simp add: attach_watcher_def)
next
  case True
  note w = True
  show ?thesis
  proof (cases "cfg_liveReload cfg")
    case False
    with w f show ?thesis
      by (cases "watcher s") (simp_all add: attach_watcher_def Let_def)
  next
    case True
    with w ch have "isElectron e \<or> liveReload s \<noteq> None" by simp
    then show ?thesis
    proof
      assume "isElectron e"
      with w True f show ?thesis
        by (cases "watcher s") (simp_all add: attach_watcher_def notify_reload_def Let_def)
    next
      assume "liveReload s \<noteq> None"
      then obtain l where "liveReload s = Some l" by auto
      with w True f show ?thesis
        by (cases "watcher s"; cases "isElectron e")
           (simp_all add: attach_watcher_def notify_reload_def Let_def)
    qed
  qed
qed

text \<open>
  C1, as stated, fails: with the artifact
  \<^verbatim>\<open>{client: {code, watchFiles}, server: {code, css}, hashes}\<close> on disk, \<^verbatim>\<open>render\<close> throws a
  TypeError instead of returning a document. \<^verbatim>\<open>render\<close> takes the bundle from
  \<^verbatim>\<open>clientComponent.js\<close>, which this artifact does not have, and reads \<^verbatim>\<open>js.code\<close> of
  \<^verbatim>\<open>undefined\<close>. With the artifact written under the keys the code reads, \<^verbatim>\<open>render\<close> still
  throws, outside dev env, when watch mode and live reload are configured and the page has no
  live-reload channel: \<^verbatim>\<open>init\<close> reads \<^verbatim>\<open>this.liveReload.socket\<close> of \<^verbatim>\<open>undefined\<close>.
\<close>

theorem render_spec_artifact_counterexample:
  "fst (render demo_env demo_config [(''title'', JStr ''Hi'')] False (demo_page (GoodFile spec_artifact)))
     = Inl TypeError \<and>
   fst (render demo_env reload_config [(''title'', JStr ''Hi'')] False (demo_page (GoodFile code_artifact)))
     = Inl TypeError"
  by (simp add: render_def render_core_def render_ready_def ssr_phase_def assemble_def
      make_context_def obj_spread_def init_defs reload_config_def deleteIfExists_def demo_defs)

text \<open>
  C1, amended. For a new page whose artifact on disk is
  \<^verbatim>\<open>{client: {js: {code: "<js>"}, watchFiles: []}, server: {component: "<ssr>", css: {code: ".a{}"}}, hashes: {js: "h1", css: "h2"}}\<close>,
  outside dev env, with a live-reload channel (or the embedded shell) whenever watch mode and
  live reload are both configured, with a pre-render hook (if any) that returns and an SSR
  module that renders \<open>(head, html)\<close>, \<^verbatim>\<open>render({title: "Hi"})\<close> returns what the template
  makes of that \<open>html\<close>, the cached css \<^verbatim>\<open>.a{}\<close>, the bundle \<^verbatim>\<open><js>\<close>, the asset paths of the
  page and the hashes \<^verbatim>\<open>h1\<close> and \<^verbatim>\<open>h2\<close>; no request goes to the scheduler, the page ends
  ready and the artifact stays on disk.
\<close>

theorem render_cached_artifact:
  assumes inst: "instantiateSsrModule e (JStr ''<ssr>'') p = Inr m"
    and hook: "(case prerender cfg of
                  None \<Rightarrow> Inr (make_context [(''title'', JStr ''Hi'')])
                | Some h \<Rightarrow> h (make_context [(''title'', JStr ''Hi'')])) = Inr ctx"
    and ssr: "m ctx = Inr (head, html)"
    and prod: "env cfg \<noteq> JStr ''dev''"
    and chan: "watch cfg \<and> cfg_liveReload cfg \<longrightarrow> isElectron e \<or> lr \<noteq> None"
  shows "fst (render e cfg [(''title'', JStr ''Hi'')] False (new_page p n js css lr (GoodFile code_artifact))) =
           template_render e
             \<lparr>t_head = (case lr of Some l \<Rightarrow> head @ liveReloadScript (port l) p | None \<Rightarrow> head),
              t_html = html, t_css = JStr ''.a{}'', t_js = JStr ''<js>'',
              t_jsPath = js, t_cssPath = css, t_jsHash = JStr ''h1'', t_cssHash = JStr ''h2'',
              t_name = n,
              t_props = (if payloadFormat cfg = JStr ''templateString''
                         then ''`'' @ escape_backslashes (json_stringify e ctx) @ ''`''
                         else json_stringify e ctx)\<rparr> \<and>
         sched_reqs (snd (render e cfg [(''title'', JStr ''Hi'')] False (new_page p n js css lr (GoodFile code_artifact)))) = [] \<and>
         ready (snd (render e cfg [(''title'', JStr ''Hi'')] False (new_page p n js css lr (GoodFile code_artifact)))) \<and>
         buildFile (snd (render e cfg [(''title'', JStr ''Hi'')] False (new_page p n js css lr (GoodFile code_artifact)))) =
           GoodFile code_artifact"
proof -
  let ?s0 = "new_page p n js css lr (GoodFile code_artifact)"
  let ?s1 = "?s0\<lparr>serverComponent := JObj [(''component'', JStr ''<ssr>''), (''css'', JObj [(''code'', JStr ''.a{}'')])],
                  clientComponent := JObj [(''js'', JObj [(''code'', JStr ''<js>'')]), (''watchFiles'', JArr [])],
                  hashes := JObj [(''js'', JStr ''h1''), (''css'', JStr ''h2'')],
                  ssrModule := Some m\<rparr>"
  let ?args = "\<lparr>t_head = (case lr of Some l \<Rightarrow> head @ liveReloadScript (port l) p | None \<Rightarrow> head),
              t_html = html, t_css = JStr ''.a{}'', t_js = JStr ''<js>'',
              t_jsPath = js, t_cssPath = css, t_jsHash = JStr ''h1'', t_cssHash = JStr ''h2'',
              t_name = n,
              t_props = (if payloadFormat cfg = JStr ''templateString''
                         then ''`'' @ escape_backslashes (json_stringify e ctx) @ ''`''
                         else json_stringify e ctx)\<rparr>"
  have l: "load_artifact e ?s0 = (None, ?s1)"
    using inst by (simp add: load_artifact_def lookup_def new_page_sel code_artifact_def)
  have ib: "init_body e cfg True ?s0 = attach_watcher e cfg ?s1"
    by (simp add: init_body_def l new_page_sel)
  have wf: "get_prop (clientComponent ?s1) ''watchFiles'' = Inr (JArr [])"
    by (simp add: lookup_def)
  have ch: "watch cfg \<and> cfg_liveReload cfg \<longrightarrow> isElectron e \<or> liveReload ?s1 \<noteq> None"
    using chan by (simp add: new_page_sel)
  from attach_watcher_done [OF wf ch] obtain s2 where
    a: "attach_watcher e cfg ?s1 = (Done, s2)" and r2: "ready s2"
    and sc: "serverComponent s2 = JObj [(''component'', JStr ''<ssr>''), (''css'', JObj [(''code'', JStr ''.a{}'')])]"
    and cc: "clientComponent s2 = JObj [(''js'', JObj [(''code'', JStr ''<js>'')]), (''watchFiles'', JArr [])]"
    and hs: "hashes s2 = JObj [(''js'', JStr ''h1''), (''css'', JStr ''h2'')]"
    and sm: "ssrModule s2 = Some m" and lr2: "liveReload s2 = lr"
    and nm: "path s2 = p" "name s2 = n" "jsPath s2 = js" "cssPath s2 = css"
    and rq: "sched_reqs s2 = []" and bf: "buildFile s2 = GoodFile code_artifact"
    by (auto simp: new_page_sel)
  have i: "init e cfg True ?s0 = (Inr (), s2)"
    by (simp add: init_def ib a)
  have c: "render_core e cfg [(''title'', JStr ''Hi'')] False ?s0 =
           render_ready e cfg [(''title'', JStr ''Hi'')] False s2"
    by (simp add: render_core_def lookup_def new_page_sel i)
  have ph: "ssr_phase cfg ctx s2 = Inr (head, html, JObj [(''code'', JStr ''.a{}'')])"
    using ssr prod by (simp add: ssr_phase_def lookup_def sc sm)
  have as: "assemble e cfg False ctx (head, html, JObj [(''code'', JStr ''.a{}'')]) s2 = Inr (Doc ?args)"
    by (simp add: assemble_def Let_def lookup_def cc hs lr2 nm cong: option.case_cong)
  have r: "render_ready e cfg [(''title'', JStr ''Hi'')] False s2 =
           (Inr (Doc ?args), s2\<lparr>payload_slot := Some ctx\<rparr>)"
    using hook ph as by (simp add: render_ready_def Let_def)
  have "render e cfg [(''title'', JStr ''Hi'')] False ?s0 =
          (template_render e ?args, s2\<lparr>payload_slot := Some ctx\<rparr>)"
    by (simp only: render_def c r prod.case sum.case render_out.case)
  then show ?thesis
    by (simp add: r2 rq bf)
qed

theorem render_cached_artifact_witness:
  "fst (render demo_env demo_config [(''title'', JStr ''Hi'')] False (demo_page (GoodFile code_artifact))) =
     Inr ''<h1>Hi</h1>'' \<and>
   sched_reqs (snd (render demo_env demo_config [(''title'', JStr ''Hi'')] False (demo_page (GoodFile code_artifact)))) = [] \<and>
   ready (snd (render demo_env demo_config [(''title'', JStr ''Hi'')] False (demo_page (GoodFile code_artifact)))) \<and>
   watch reload_config \<and> cfg_liveReload reload_config \<and>
   fst (render demo_env reload_config [(''title'', JStr ''Hi'')] False
          (new_page ''/views/Home.html'' ''Home'' ''/assets/Home.js'' ''/assets/Home.css''
             (Some \<lparr>port = 5001, clients = [7]\<rparr>) (GoodFile code_artifact))) = Inr ''<h1>Hi</h1>'' \<and>
   sched_reqs (snd (render demo_env reload_config [(''title'', JStr ''Hi'')] False
          (new_page ''/views/Home.html'' ''Home'' ''/assets/Home.js'' ''/assets/Home.css''
             (Some \<lparr>port = 5001, clients = [7]\<rparr>) (GoodFile code_artifact)))) = []"
proof -
  have a: "instantiateSsrModule demo_env (JStr ''<ssr>'') ''/views/Home.html'' =
           Inr (\<lambda>ctx. Inr (''<title>Home</title>'', ''<h1>Hi</h1>''))"
    by (simp add: demo_env_def)
  have b: "(\<lambda>ctx. Inr (''<title>Home</title>'', ''<h1>Hi</h1>'')) (make_context [(''title'', JStr ''Hi'')]) =
           (Inr (''<title>Home</title>'', ''<h1>Hi</h1>'') :: error + string \<times> string)"
    by simp
  have h: "(case prerender demo_config of
              None \<Rightarrow> Inr (make_context [(''title'', JStr ''Hi'')])
            | Some h \<Rightarrow> h (make_context [(''title'', JStr ''Hi'')])) =
           Inr (make_context [(''title'', JStr ''Hi'')])"
    and h2: "(case prerender reload_config of
              None \<Rightarrow> Inr (make_context [(''title'', JStr ''Hi'')])
            | Some h \<Rightarrow> h (make_context [(''title'', JStr ''Hi'')])) =
           Inr (make_context [(''title'', JStr ''Hi'')])"
    by (simp_all add: reload_config_def demo_config_def)
  have c: "env demo_config \<noteq> JStr ''dev''"
    and c2: "env reload_config \<noteq> JStr ''dev''"
    by (simp_all add: reload_config_def demo_config_def)
  have d: "watch demo_config \<and> cfg_liveReload demo_config \<longrightarrow> isElectron demo_env \<or> (None :: live_reload option) \<noteq> None"
    by (simp add: demo_config_def)
  have d2: "watch reload_config \<and> cfg_liveReload reload_config \<longrightarrow>
            isElectron demo_env \<or> Some \<lparr>port = 5001, clients = [7]\<rparr> \<noteq> None"
    by simp
  have w: "watch reload_config \<and> cfg_liveReload reload_config"
    by (simp add: reload_config_def)
  from render_cached_artifact [OF a h b c d, of "''Home''" "''/assets/Home.js''" "''/assets/Home.css''"]
       render_cached_artifact [OF a h2 b c2 d2, of "''Home''" "''/assets/Home.js''" "''/assets/Home.css''"]
       w
  show ?thesis
    by (simp add: demo_page_def demo_env_def)
qed

section \<open>Changes of watched files\<close>

lemma fire_resume_reqs:
  "snd (snd t) = ChangeResume \<Longrightarrow> sched_reqs (fire t s) = sched_reqs s @ [ScheduleBuild (active s)]"
  by (cases t) (simp add: fire_def scheduleBuild_def)

lemma fold_fire_reqs_inactive:
  "\<not> active s \<Longrightarrow> \<forall>t \<in> set L. \<not> is_idle t \<Longrightarrow>
   sched_reqs (fold fire L s) = sched_reqs s @ replicate (length L) (ScheduleBuild False)"
proof (induction L arbitrary: s)
  case Nil
  then show ?case by simp
next
  case (Cons t L)
  from Cons.prems have r: "snd (snd t) = ChangeResume"
    by (cases "snd (snd t)") (simp_all add: is_idle_def)
  from Cons.prems have a: "\<not> active (fire t s)" by (simp add: fire_simps)
  have "sched_reqs (fold fire L (fire t s)) =
        sched_reqs (fire t s) @ replicate (length L) (ScheduleBuild False)"
    using a Cons.prems(2) by (intro Cons.IH) simp_all
  with Cons.prems(1) r show ?case
    by (simp add: fire_resume_reqs replicate_app_Cons_same)
qed

lemma length_due_timers: "length (due_timers T ts) = length (filter (\<lambda>t. fst (snd t) \<le> T) ts)"
  by (simp add: due_timers_def split_def)

lemma tick_reqs_inactive:
  assumes w: "wf_state s" and i: "\<not> active s"
  shows "sched_reqs (tick n s) =
         sched_reqs s @ replicate (length (due_timers (now s + n) (timers s))) (ScheduleBuild False)"
proof -
  from wf_stateD(3,4) [OF w] i have "\<forall>t \<in> set (timers s). \<not> is_idle t"
    by (cases "idleTimer s") auto
  then have "\<forall>t \<in> set (due_timers (now s + n) (timers s)). \<not> is_idle t"
    by (simp add: set_due_timers)
  with i show ?thesis
    by (simp add: tick_def Let_def fold_fire_reqs_inactive)
qed

text \<open>
  C3, as stated, fails: a ready, inactive page is notified of a change; 50 ms later a
  heartbeat for the page arrives; when the 100 ms debounce ends, the rebuild is requested
  with priority \<open>True\<close>, although the page was inactive when the notification arrived.
\<close>

theorem change_priority_counterexample:
  "ready live_page \<and> \<not> active live_page \<and>
   sched_reqs (run demo_env [Change, Tick 50, Message ''/views/Home.html'', Tick 50] live_page) =
     [ScheduleBuild True]"
  by (simp add: live_page_eq run_def on_change_def sleep_def on_message_def heartbeat_def setTimeout_def
      clearTimeout_def tick_def due_timers_def fire_def scheduleBuild_def demo_env_def idleTimeout_def)

text \<open>
  C3, amended. A change notification on a watched page makes it unready and leads to a rebuild
  request whose priority is the page's \<open>active\<close> flag at the moment the request is made.
  When the page is active at the notification, or in embedded-shell mode, the request is made
  at once, with the flag of that moment. Otherwise nothing is requested at the notification:
  a 100 ms timer is set, and when it fires the request is made with the flag as it is then;
  if only time passes meanwhile, that is a request without priority.
\<close>

theorem change_requests_rebuild:
  assumes "watcher s \<noteq> None"
  shows "\<not> ready (step e Change s) \<and>
         (isElectron e \<or> active s \<longrightarrow>
            sched_reqs (step e Change s) = sched_reqs s @ [ScheduleBuild (active s)] \<and>
            timers (step e Change s) = timers s) \<and>
         (\<not> isElectron e \<and> \<not> active s \<longrightarrow>
            sched_reqs (step e Change s) = sched_reqs s \<and>
            timers (step e Change s) = timers s @ [(next_timer s, now s + 100, ChangeResume)]) \<and>
         (\<forall>t s'. snd (snd t) = ChangeResume \<longrightarrow>
            sched_reqs (fire t s') = sched_reqs s' @ [ScheduleBuild (active s')]) \<and>
         (\<not> isElectron e \<and> \<not> active s \<and> wf_state s \<longrightarrow>
            (\<forall>n \<ge> 100. \<exists>k. sched_reqs (tick n (step e Change s)) =
                             sched_reqs s @ replicate (Suc k) (ScheduleBuild False)))"
proof -
  have d: "\<exists>k. sched_reqs (tick n (on_change e s)) = sched_reqs s @ replicate (Suc k) (ScheduleBuild False)"
    if c: "\<not> isElectron e" "\<not> active s" and w: "wf_state s" and n: "100 \<le> n" for n
  proof -
    have "wf_state (on_change e s)" using w by (rule wf_on_change)
    moreover have "\<not> active (on_change e s)" using c by (simp add: on_change_simps)
    ultimately have "sched_reqs (tick n (on_change e s)) =
        sched_reqs (on_change e s) @
        replicate (length (due_timers (now (on_change e s) + n) (timers (on_change e s)))) (ScheduleBuild False)"
      by (rule tick_reqs_inactive)
    moreover have "length (due_timers (now (on_change e s) + n) (timers (on_change e s))) =
        Suc (length (due_timers (now s + n) (timers s)))"
      using c n by (simp add: length_due_timers on_change_simps)
    ultimately show ?thesis using c by (auto simp: on_change_simps)
  qed
  have st: "step e Change s = on_change e s"
    using assms by (cases "watcher s") simp_all
  show ?thesis
    unfolding st using d by (simp add: on_change_simps fire_resume_reqs)
qed

theorem change_requests_rebuild_witness:
  "watcher live_page \<noteq> None \<and> \<not> isElectron demo_env \<and> \<not> active live_page \<and> wf_state live_page \<and>
   \<not> ready (step demo_env Change live_page) \<and>
   sched_reqs (step demo_env Change live_page) = [] \<and>
   timers (step demo_env Change live_page) = [(0, 100, ChangeResume)] \<and>
   sched_reqs (tick 100 (step demo_env Change live_page)) = [ScheduleBuild False] \<and>
   active (heartbeat live_page) \<and>
   sched_reqs (step demo_env Change (heartbeat live_page)) = [ScheduleBuild True]"
proof -
  have w: "watcher live_page \<noteq> None" by (simp add: live_page_eq)
  have w2: "watcher (heartbeat live_page) \<noteq> None" by (simp add: heartbeat_simps live_page_eq)
  have f: "\<not> isElectron demo_env" "\<not> active live_page" "wf_state live_page"
    by (simp_all add: demo_env_def live_page_eq wf_state_def)
  have t: "sched_reqs (tick 100 (step demo_env Change live_page)) = [ScheduleBuild False]"
    by (simp add: live_page_eq on_change_def sleep_def setTimeout_def tick_def due_timers_def fire_def
        scheduleBuild_def demo_env_def)
  from change_requests_rebuild [OF w, of demo_env] change_requests_rebuild [OF w2, of demo_env] w f t
  show ?thesis
    by (simp add: heartbeat_simps) (simp add: live_page_eq)
qed

section \<open>Activity tracking\<close>

text \<open>
  C6. After \<^verbatim>\<open>heartbeat()\<close> the page is active and holds the handle of the one pending idle
  timer, due \<open>15000\<close> ms later; a handle held before the call names no pending timer any
  more (the pending expiry is cancelled and the timer restarted). While no heartbeat for the
  page arrives, the page stays active as long as less than \<open>15000\<close> ms have passed, and from
  \<open>15000\<close> ms on it is inactive with the handle cleared, whatever else happens meanwhile
  (changes of watched files, messages for other paths, other timers).
\<close>

theorem heartbeat_idle_timer:
  assumes w: "wf_state s"
  shows "active (heartbeat s) \<and>
         idleTimer (heartbeat s) = Some (next_timer s) \<and>
         filter is_idle (timers (heartbeat s)) = [(next_timer s, now s + 15000, IdleExpiry)] \<and>
         (\<forall>h. idleTimer s = Some h \<longrightarrow> h \<notin> fst ` set (timers (heartbeat s))) \<and>
         (\<forall>evs. (\<forall>ev \<in> set evs. ev \<noteq> Message (path s)) \<and> elapsed evs < 15000 \<longrightarrow>
            active (run e evs (heartbeat s)) \<and>
            idleTimer (run e evs (heartbeat s)) = Some (next_timer s)) \<and>
         (\<forall>evs. (\<forall>ev \<in> set evs. ev \<noteq> Message (path s)) \<and> 15000 \<le> elapsed evs \<longrightarrow>
            \<not> active (run e evs (heartbeat s)) \<and>
            idleTimer (run e evs (heartbeat s)) = None)"
proof -
  let ?s1 = "heartbeat s"
  let ?D = "now s + 15000"
  have w1: "wf_state ?s1" using w by (rule wf_heartbeat)
  have old: "\<not> is_idle t" if "t \<in> set (timers s)" "Some (fst t) \<noteq> idleTimer s" for t
    using wf_stateD(3,4) [OF w] that by (cases "idleTimer s") auto
  have one: "filter is_idle (timers ?s1) = [(next_timer s, ?D, IdleExpiry)]"
    using old by (simp add: heartbeat_simps idleTimeout_def is_idle_def filter_empty_conv) blast
  have gone: "h \<notin> fst ` set (timers ?s1)" if "idleTimer s = Some h" for h
  proof -
    from wf_stateD(4) [OF w that] obtain t where "t \<in> set (timers s)" "fst t = h" by blast
    with wf_stateD(1) [OF w] have "h < next_timer s" by blast
    with that show ?thesis by (auto simp: heartbeat_simps)
  qed
  have mem: "(next_timer s, ?D, IdleExpiry) \<in> set (timers ?s1)"
    by (simp add: heartbeat_simps idleTimeout_def)
  have dl: "\<forall>t \<in> set (timers ?s1). is_idle t \<longrightarrow> fst (snd t) \<le> ?D"
  proof (intro ballI impI)
    fix t assume "t \<in> set (timers ?s1)" "is_idle t"
    then have "t \<in> set (filter is_idle (timers ?s1))" by simp
    then show "fst (snd t) \<le> ?D" unfolding one by simp
  qed
  have stay: "active (run e evs ?s1) \<and> idleTimer (run e evs ?s1) = Some (next_timer s)"
    if "\<forall>ev \<in> set evs. ev \<noteq> Message (path s)" "elapsed evs < 15000" for evs
  proof -
    have "idleTimer (run e evs ?s1) = Some (next_timer s) \<and>
          (next_timer s, ?D, IdleExpiry) \<in> set (timers (run e evs ?s1))"
      using w1 mem that by (intro run_idleTimer_kept) (simp_all add: heartbeat_simps)
    moreover have "wf_state (run e evs ?s1)" using w1 by (rule wf_run)
    ultimately show ?thesis using wf_stateD(4) by blast
  qed
  have expire: "\<not> active (run e evs ?s1) \<and> idleTimer (run e evs ?s1) = None"
    if "\<forall>ev \<in> set evs. ev \<noteq> Message (path s)" "15000 \<le> elapsed evs" for evs
  proof (rule idle_expired)
    show "wf_state (run e evs ?s1)" using w1 by (rule wf_run)
    show "\<forall>t \<in> set (timers (run e evs ?s1)). is_idle t \<longrightarrow> fst (snd t) \<le> ?D"
      using w1 dl that(1) by (intro run_idle_deadline) (simp_all add: heartbeat_simps)
    show "?D \<le> now (run e evs ?s1)"
      using that(2) by (simp add: run_now heartbeat_simps)
  qed
  show ?thesis
    using one gone stay expire by (simp add: heartbeat_simps)
qed

theorem heartbeat_idle_timer_witness:
  "wf_state live_page \<and>
   active (heartbeat live_page) \<and>
   filter is_idle (timers (heartbeat (heartbeat live_page))) = [(1, 15000, IdleExpiry)] \<and>
   active (run demo_env [Tick 7000, Change, Tick 7999] (heartbeat live_page)) \<and>
   \<not> active (run demo_env [Tick 7000, Change, Tick 8000] (heartbeat live_page)) \<and>
   idleTimer (run demo_env [Tick 7000, Change, Tick 8000] (heartbeat live_page)) = None"
proof -
  have w: "wf_state live_page" by (simp add: live_page_eq wf_state_def)
  have w1: "wf_state (heartbeat live_page)" using w by (rule wf_heartbeat)
  have p: "path live_page = ''/views/Home.html''" by (simp add: live_page_eq)
  have n: "next_timer (heartbeat live_page) = 1" "now (heartbeat live_page) = 0"
    by (simp_all add: heartbeat_simps live_page_eq)
  have a: "\<forall>ev \<in> set [Tick 7000, Change, Tick 7999]. ev \<noteq> Message (path live_page)"
    and b: "\<forall>ev \<in> set [Tick 7000, Change, Tick 8000]. ev \<noteq> Message (path live_page)"
    by simp_all
  have ea: "elapsed [Tick 7000, Change, Tick 7999] < 15000"
    and eb: "15000 \<le> elapsed [Tick 7000, Change, Tick 8000]"
    by (simp_all add: elapsed_def)
  from heartbeat_idle_timer [OF w, of demo_env] a b ea eb
       heartbeat_idle_timer [OF w1, of demo_env] n w
  show ?thesis by simp
qed

section \<open>The page registry\<close>

lemma map_of_strip_locals:
  "map_of (strip_locals excl locals) k = (if k \<in> set excl then None else map_of locals k)"
proof -
  have "map_of (filter (\<lambda>(k, v). k \<notin> set excl) xs) k = (if k \<in> set excl then None else map_of xs k)"
    for xs :: jsobj
    by (induction xs) auto
  from this [of "AList.clearjunk locals"] show ?thesis
    by (simp only: strip_locals_def map_of_clearjunk)
qed

text \<open>
  What \<^verbatim>\<open>render(path, locals, callback)\<close> does with a page that is registered, or that a
  constructor call returns: the page receives the caller's locals without the excluded keys;
  a document is returned or handed to the callback; on a failure the page leaves the
  registry and the error is thrown or handed to the callback.
\<close>

lemma registry_render_of_page:
  assumes np: "pth \<notin> set object_prototype_members"
    and pg: "page_for create st pth = Inr pg"
    and r: "page_render pg (strip_locals excl locals) = (res, pg1)"
  shows "(\<forall>k. lookup (strip_locals excl locals) k =
               (if k \<in> set excl then JUndefined else lookup locals k)) \<and>
         (pages st pth = None \<longrightarrow> create pth = Inr pg) \<and>
         (\<forall>doc. res = Inr doc \<longrightarrow>
            engine_render excl create page_render pth locals None st =
              (Inr (Some doc), st\<lparr>pages := (pages st)(pth \<mapsto> pg1)\<rparr>)) \<and>
         (\<forall>doc cb. res = Inr doc \<and> cb (CbResult doc) = None \<longrightarrow>
            engine_render excl create page_render pth locals (Some cb) st =
              (Inr None, st\<lparr>pages := (pages st)(pth \<mapsto> pg1), cb_log := cb_log st @ [CbResult doc]\<rparr>)) \<and>
         (\<forall>err. res = Inl err \<longrightarrow>
            engine_render excl create page_render pth locals None st =
              (Inl err, st\<lparr>pages := (pages st)(pth := None)\<rparr>)) \<and>
         (\<forall>err cb. res = Inl err \<and> cb (CbError err) = None \<longrightarrow>
            engine_render excl create page_render pth locals (Some cb) st =
              (Inr None, st\<lparr>pages := (pages st)(pth := None), cb_log := cb_log st @ [CbError err]\<rparr>)) \<and>
         (\<forall>err cb. res = Inl err \<longrightarrow>
            cb_log (snd (engine_render excl create page_render pth locals (Some cb) st)) =
              cb_log st @ [CbError err]) \<and>
         (\<forall>err callback. res = Inl err \<longrightarrow>
            pages (snd (engine_render excl create page_render pth locals callback st)) pth = None \<and>
            page_for create (snd (engine_render excl create page_render pth locals callback st)) pth =
              create pth)"
proof -
  have strip: "lookup (strip_locals excl locals) k = (if k \<in> set excl then JUndefined else lookup locals k)" for k
    by (simp add: lookup_def map_of_strip_locals)
  have new: "create pth = Inr pg" if "pages st pth = None"
    using pg that by (simp add: page_for_def)
  have ok: "engine_render excl create page_render pth locals None st =
              (Inr (Some doc), st\<lparr>pages := (pages st)(pth \<mapsto> pg1)\<rparr>)" if "res = Inr doc" for doc
    using np pg r that by (cases "pages st pth") (simp_all add: engine_render_def registry_get_def render_registered_def page_for_def)
  have ok_cb: "engine_render excl create page_render pth locals (Some cb) st =
              (Inr None, st\<lparr>pages := (pages st)(pth \<mapsto> pg1), cb_log := cb_log st @ [CbResult doc]\<rparr>)"
    if "res = Inr doc" "cb (CbResult doc) = None" for doc cb
    using np pg r that by (cases "pages st pth") (simp_all add: engine_render_def registry_get_def render_registered_def page_for_def)
  have bad: "engine_render excl create page_render pth locals None st =
              (Inl err, st\<lparr>pages := (pages st)(pth := None)\<rparr>)" if "res = Inl err" for err
    using np pg r that
    by (cases "pages st pth") (simp_all add: engine_render_def registry_get_def render_registered_def page_for_def on_render_error_def)
  have bad_cb: "engine_render excl create page_render pth locals (Some cb) st =
              (Inr None, st\<lparr>pages := (pages st)(pth := None), cb_log := cb_log st @ [CbError err]\<rparr>)"
    if "res = Inl err" "cb (CbError err) = None" for err cb
    using np pg r that
    by (cases "pages st pth") (simp_all add: engine_render_def registry_get_def render_registered_def page_for_def on_render_error_def)
  have evict: "pages (snd (on_render_error pth callback err st')) pth = None" for callback err and st' :: "'a registry"
    by (simp add: on_render_error_def Let_def split: option.splits)
  have told: "cb_log (snd (engine_render excl create page_render pth locals (Some cb) st)) =
              cb_log st @ [CbError err]" if "res = Inl err" for err cb
    using np pg r that
    by (cases "pages st pth"; cases "cb (CbError err)")
       (simp_all add: engine_render_def registry_get_def render_registered_def page_for_def on_render_error_def)
  have gone: "pages (snd (engine_render excl create page_render pth locals callback st)) pth = None"
    if "res = Inl err" for err callback
    using np pg r that
    by (cases "pages st pth") (simp_all add: engine_render_def registry_get_def render_registered_def page_for_def evict)
  show ?thesis
    using strip new ok ok_cb bad bad_cb told gone by (simp add: page_for_def)
qed

lemma new_Page_without_config:
  assumes "get_prop engine ''config'' = Inr c" and "get_prop c ''dir'' = Inl err"
  shows "new_Page names channel disk engine pth = Inl err"
proof -
  from assms(1) obtain lv where "get_prop engine ''liveReload'' = Inr lv"
    by (cases engine) simp_all
  with assms show ?thesis by (simp add: new_Page_def)
qed

text \<open>
  C5 fails on the code. \<^verbatim>\<open>engine.js\<close> constructs a page with
  \<^verbatim>\<open>new Page(template, path, options, liveReloadSocket)\<close>, and the constructor of \<^verbatim>\<open>Page.js\<close>
  takes the template object for its \<^verbatim>\<open>engine\<close>: when that object has no \<^verbatim>\<open>config\<close>,
  destructuring \<^verbatim>\<open>config\<close> throws before the \<^verbatim>\<open>try\<close> block. A call for a path that is not
  registered then leaves the registry as it is, returns no document and hands no document to
  the callback; for a path that names no member of \<^verbatim>\<open>Object.prototype\<close> it throws the
  constructor's error without calling the callback at all.
\<close>

theorem registry_render_constructor_throws:
  assumes cfg: "get_prop template ''config'' = Inr c"
    and dir: "get_prop c ''dir'' = Inl err"
    and unseen: "pages st pth = None"
  shows "pages (snd (engine_render excl (createPage names channel disk template) page_render
                       pth locals callback st)) = pages st \<and>
         (\<forall>doc. fst (engine_render excl (createPage names channel disk template) page_render
                        pth locals callback st) \<noteq> Inr (Some doc)) \<and>
         (\<forall>doc. CbResult doc \<in> set (cb_log (snd (engine_render excl (createPage names channel disk template)
                                                page_render pth locals callback st))) \<longrightarrow>
                CbResult doc \<in> set (cb_log st)) \<and>
         (pth \<notin> set object_prototype_members \<longrightarrow>
            engine_render excl (createPage names channel disk template) page_render
              pth locals callback st = (Inl err, st))"
proof (cases "pth \<in> set object_prototype_members")
  case True
  with unseen have "engine_render excl (createPage names channel disk template) page_render
                      pth locals callback st = on_render_error pth callback TypeError st"
    by (simp add: engine_render_def registry_get_def render_registered_def)
  moreover from unseen have "(pages st)(pth := None) = pages st"
    by (simp add: fun_upd_idem_iff)
  ultimately show ?thesis
    using True
    by (cases callback; cases "the callback (CbError TypeError)")
       (simp_all add: on_render_error_def)
next
  case False
  with unseen new_Page_without_config [OF cfg dir, of names channel disk pth]
  have "engine_render excl (createPage names channel disk template) page_render
          pth locals callback st = (Inl err, st)"
    by (simp add: engine_render_def registry_get_def createPage_def)
  then show ?thesis by simp
qed

theorem registry_render_constructor_throws_witness:
  "get_prop demo_template ''config'' = Inr JUndefined \<and>
   get_prop JUndefined ''dir'' = Inl TypeError \<and>
   pages empty_registry ''/views/Home.html'' = None \<and>
   engine_render excludeLocals_default (createPage demo_names demo_channel demo_disk demo_template)
     demo_page_render ''/views/Home.html'' [(''title'', JStr ''Hi'')] (Some demo_callback) empty_registry =
     (Inl TypeError, empty_registry) \<and>
   engine_render excludeLocals_default (createPage demo_names demo_channel demo_disk demo_template)
     demo_page_render ''/views/Home.html'' [(''title'', JStr ''Hi'')] None empty_registry =
     (Inl TypeError, empty_registry)"
proof -
  have a: "get_prop demo_template ''config'' = Inr JUndefined"
    by (simp add: demo_template_def lookup_def)
  have b: "get_prop JUndefined ''dir'' = Inl TypeError"
    by simp
  have c: "pages empty_registry ''/views/Home.html'' = None"
    by (simp add: empty_registry_def)
  have d: "''/views/Home.html'' \<notin> set object_prototype_members"
    by (simp add: object_prototype_members_def)
  from registry_render_constructor_throws [OF a b c, of excludeLocals_default demo_names demo_channel
         demo_disk demo_page_render "[(''title'', JStr ''Hi'')]" "Some demo_callback"]
       registry_render_constructor_throws [OF a b c, of excludeLocals_default demo_names demo_channel
         demo_disk demo_page_render "[(''title'', JStr ''Hi'')]" None]
       a b c d
  show ?thesis by simp
qed

end
